theory Spec2Isabelle
  imports Complex_Main "HOL-Library.Word" "HOL-Library.Sublist"
begin

section \<open>Turn taking (turn\_taking.py)\<close>

subsection \<open>Constants and PCM samples\<close>

text \<open>
  Audio is raw 16-bit little-endian mono PCM, a Python \<open>bytes\<close> object: a list of
  8-bit words. Python's floats are modelled as reals: the arithmetic on them here is a
  sum of integers, two divisions and comparisons against literals.
\<close>

type_synonym bytes = "8 word list"

definition SAMPLE_RATE :: nat where
  "SAMPLE_RATE = 16000"

definition FRAME_MS :: nat where
  "FRAME_MS = 20"

definition FRAME_BYTES :: nat where
  "FRAME_BYTES = (SAMPLE_RATE * FRAME_MS div 1000) * 2"

definition SILENCE_GRACE_MS :: int where
  "SILENCE_GRACE_MS = 1000"

definition CONFIRMATION_WINDOW_MS :: int where
  "CONFIRMATION_WINDOW_MS = 400"

definition MIN_SPEECH_MS :: int where
  "MIN_SPEECH_MS = 300"

definition LONG_SILENCE_NUDGE_MS :: int where
  "LONG_SILENCE_NUDGE_MS = 1500"

definition INCOMPLETE_WAIT_MS :: int where
  "INCOMPLETE_WAIT_MS = 300"

definition COMFORT_WAIT_MS :: int where
  "COMFORT_WAIT_MS = 1500"

definition CHUNK_MS :: int where
  "CHUNK_MS = 200"

text \<open>\<open>struct.unpack_from("<h", pcm, i)\<close>: the signed 16-bit value of two bytes, low byte first.\<close>

definition unpack_h :: "8 word \<Rightarrow> 8 word \<Rightarrow> int" where
  "unpack_h lo hi =
     (let u = int (unat lo) + 256 * int (unat hi)
      in if u \<ge> 32768 then u - 65536 else u)"

subsection \<open>Voice activity probability\<close>

text \<open>
  The loop \<open>for i in range(0, stop, 2)\<close> that adds up \<open>abs(s)\<close> over the samples and
  counts them. A read past the end of the data raises \<open>struct.error\<close>, which the source
  catches and leaves the loop on.
\<close>

function energy_loop :: "bytes \<Rightarrow> nat \<Rightarrow> nat \<Rightarrow> int \<times> nat \<Rightarrow> int \<times> nat" where
  "energy_loop pcm_bytes i stop (tot, count) =
     (if i < stop then
        (if i + 2 \<le> length pcm_bytes then
           energy_loop pcm_bytes (i + 2) stop
             (tot + \<bar>unpack_h (pcm_bytes ! i) (pcm_bytes ! (i + 1))\<bar>, count + 1)
         else (tot, count))
      else (tot, count))"
  by pat_completeness auto
termination
  by (relation "measure (\<lambda>(pcm_bytes, i, stop, acc). stop - i)") auto

declare energy_loop.simps [simp del]

text \<open>
  The energy fallback, written out four times in the source with the same thresholds:
  the mean absolute sample over 32768, mapped to 1.0, 0.5, 0.3 or 0.0; no sample gives 0.0.
\<close>

definition energy_probability :: "bytes \<Rightarrow> nat \<Rightarrow> real" where
  "energy_probability pcm_bytes stop =
     (case energy_loop pcm_bytes 0 stop (0, 0) of (tot, count) \<Rightarrow>
        if count = 0 then 0
        else
          let avg = real_of_int tot / real count / 32768
          in if avg > 0.03 then 1
             else if avg > 0.015 then 0.5
             else if avg > 0.005 then 0.3
             else 0)"

text \<open>
  The webrtcvad library is outside the repository. \<open>VAD_AVAILABLE\<close> is the flag set by
  the import; \<open>Vad\<close> is the result of \<open>webrtcvad.Vad(2)\<close>: \<open>None\<close> when the constructor
  raises, else the method \<open>is_speech(frame, sample_rate)\<close>, which itself answers \<open>None\<close>
  when it raises.
\<close>

record vad_env =
  VAD_AVAILABLE :: bool
  Vad :: "(bytes \<Rightarrow> nat \<Rightarrow> bool option) option"

text \<open>The loop over whole 20 ms frames: a frame on which \<open>is_speech\<close> raises is skipped.\<close>

function frame_loop ::
  "(bytes \<Rightarrow> nat \<Rightarrow> bool option) \<Rightarrow> bytes \<Rightarrow> nat \<Rightarrow> nat \<Rightarrow> nat \<times> nat \<Rightarrow> nat \<times> nat" where
  "frame_loop is_speech pcm_bytes sample_rate i (speech_frames, total_frames) =
     (if i + FRAME_BYTES \<le> length pcm_bytes then
        (let frame = take FRAME_BYTES (drop i pcm_bytes)
         in frame_loop is_speech pcm_bytes sample_rate (i + FRAME_BYTES)
              (if length frame = FRAME_BYTES then
                 (case is_speech frame sample_rate of
                    None \<Rightarrow> (speech_frames, total_frames)
                  | Some sp \<Rightarrow> ((if sp then speech_frames + 1 else speech_frames), total_frames + 1))
               else (speech_frames, total_frames)))
      else (speech_frames, total_frames))"
  by pat_completeness auto
termination
  by (relation "measure (\<lambda>(is_speech, pcm_bytes, sample_rate, i, acc). length pcm_bytes - i)")
     (auto simp: FRAME_BYTES_def SAMPLE_RATE_def FRAME_MS_def)

declare frame_loop.simps [simp del]

definition vad_probability :: "vad_env \<Rightarrow> bytes \<Rightarrow> nat \<Rightarrow> real" where
  "vad_probability env pcm_bytes sample_rate =
     (if pcm_bytes = [] \<or> length pcm_bytes < 2 then 0
      else if length pcm_bytes < FRAME_BYTES then
        energy_probability pcm_bytes (length pcm_bytes - 1)
      else if \<not> VAD_AVAILABLE env then
        energy_probability pcm_bytes (length pcm_bytes - 1)
      else
        (case Vad env of
           None \<Rightarrow> energy_probability pcm_bytes (min (length pcm_bytes - 1) 1000)
         | Some is_speech \<Rightarrow>
             (case frame_loop is_speech pcm_bytes sample_rate 0 (0, 0) of
                (speech_frames, total_frames) \<Rightarrow>
                  if total_frames = 0 then
                    energy_probability pcm_bytes (min (length pcm_bytes - 1) 1000)
                  else
                    let prob = real speech_frames / real total_frames
                    in if prob \<ge> 0.5 then 1
                       else if prob \<ge> 0.25 then 0.5
                       else if prob > 0 then 0.3
                       else 0)))"

definition has_voice :: "vad_env \<Rightarrow> bytes \<Rightarrow> nat \<Rightarrow> bool" where
  "has_voice env pcm_bytes sample_rate = (vad_probability env pcm_bytes sample_rate > 0.6)"

text \<open>\<open>Some True\<close> is speech, \<open>Some False\<close> is silence, \<open>None\<close> is uncertain.\<close>

definition has_voice_uncertain :: "vad_env \<Rightarrow> bytes \<Rightarrow> nat \<Rightarrow> bool option" where
  "has_voice_uncertain env pcm_bytes sample_rate =
     (let prob = vad_probability env pcm_bytes sample_rate
      in if prob \<ge> 0.1 then Some True
         else if prob < 0.05 then Some False
         else None)"

subsection \<open>The engine\<close>

datatype TurnEventType = TURN_END | CONTINUATION_CUE | NUDGE | COMFORT

datatype TurnEvent = TurnEvent TurnEventType "bytes option"

datatype TurnState = IDLE | LISTENING | CANDIDATE_END | WAITING_INCOMPLETE

text \<open>
  The attributes of a \<open>TurnTakingEngine\<close> object. The threshold attributes carry a
  leading underscore in the source. \<open>barge_in_frames\<close> is the attribute
  \<open>_barge_in_frames\<close> that app.py adds to the object while it runs; \<open>None\<close> is
  \<open>hasattr\<close> answering false.
\<close>

record TurnTakingEngine =
  chunk_ms :: int
  state :: TurnState
  buffer :: bytes
  silence_chunks :: int
  speech_chunks :: int
  idle_silence_chunks :: int
  consecutive_speech_frames :: int
  silence_grace_chunks :: int
  confirmation_chunks :: int
  min_speech_chunks :: int
  nudge_chunks :: int
  incomplete_wait_chunks :: int
  comfort_wait_chunks :: int
  barge_in_frames :: "int option"

datatype py_error = ZeroDivisionError | ValueError

text \<open>Python's \<open>round\<close> on a float: to the nearest integer, a tie to the even one.\<close>

definition py_round :: "real \<Rightarrow> int" where
  "py_round x =
     (let f = \<lfloor>x\<rfloor>; d = x - of_int f
      in if d < 1 / 2 then f
         else if d > 1 / 2 then f + 1
         else if even f then f else f + 1)"

definition ms_to_chunks :: "int \<Rightarrow> int \<Rightarrow> int" where
  "ms_to_chunks ms chunk = max 1 (py_round (real_of_int ms / real_of_int chunk))"

definition config_get :: "(string \<rightharpoonup> int) \<Rightarrow> string \<Rightarrow> int \<Rightarrow> int" where
  "config_get config k dflt = (case config k of None \<Rightarrow> dflt | Some v \<Rightarrow> v)"

text \<open>
  \<open>__init__(chunk_ms, config)\<close>; \<open>config = None\<close> and \<open>config = {}\<close> both are the empty
  map. The division raises when \<open>chunk_ms\<close> is 0.
\<close>

definition TurnTakingEngine_init :: "int \<Rightarrow> (string \<rightharpoonup> int) \<Rightarrow> py_error + TurnTakingEngine" where
  "TurnTakingEngine_init chunk config =
     (if chunk = 0 then Inl ZeroDivisionError
      else Inr \<lparr>
        chunk_ms = chunk,
        state = IDLE,
        buffer = [],
        silence_chunks = 0,
        speech_chunks = 0,
        idle_silence_chunks = 0,
        consecutive_speech_frames = 0,
        silence_grace_chunks = ms_to_chunks (config_get config ''candidate_end_ms'' SILENCE_GRACE_MS) chunk,
        confirmation_chunks = ms_to_chunks (config_get config ''final_end_ms'' CONFIRMATION_WINDOW_MS) chunk,
        min_speech_chunks = ms_to_chunks (config_get config ''min_speech_ms'' MIN_SPEECH_MS) chunk,
        nudge_chunks = ms_to_chunks (config_get config ''nudge_ms'' LONG_SILENCE_NUDGE_MS) chunk,
        incomplete_wait_chunks = ms_to_chunks (config_get config ''incomplete_wait_ms'' INCOMPLETE_WAIT_MS) chunk,
        comfort_wait_chunks = ms_to_chunks (config_get config ''comfort_wait_ms'' COMFORT_WAIT_MS) chunk,
        barge_in_frames = None \<rparr>)"

definition reset :: "TurnTakingEngine \<Rightarrow> TurnTakingEngine" where
  "reset self =
     self\<lparr> state := IDLE, buffer := [], speech_chunks := 0, silence_chunks := 0,
            idle_silence_chunks := 0, consecutive_speech_frames := 0 \<rparr>"

definition turn_end_incomplete :: "TurnTakingEngine \<Rightarrow> TurnTakingEngine" where
  "turn_end_incomplete self = self\<lparr> state := WAITING_INCOMPLETE, silence_chunks := 0 \<rparr>"

definition finalize_turn :: "TurnTakingEngine \<Rightarrow> TurnTakingEngine" where
  "finalize_turn self = reset self"

text \<open>
  \<open>process_chunk\<close> returns the engine after the call and the event, if any. The four
  state blocks of the source are the four helper functions below, in the source's order.
\<close>

definition start_listening :: "TurnTakingEngine \<Rightarrow> bytes \<Rightarrow> TurnTakingEngine" where
  "start_listening self pcm_bytes =
     self\<lparr> state := LISTENING, buffer := pcm_bytes, speech_chunks := 1,
            silence_chunks := 0, idle_silence_chunks := 0 \<rparr>"

definition chunk_idle :: "TurnTakingEngine \<Rightarrow> bytes \<Rightarrow> bool \<Rightarrow> TurnTakingEngine \<times> TurnEvent option" where
  "chunk_idle self pcm_bytes voice =
     (if voice then (start_listening self pcm_bytes, None)
      else
        let self1 = self\<lparr> idle_silence_chunks := idle_silence_chunks self + 1 \<rparr>
        in if idle_silence_chunks self1 \<ge> nudge_chunks self1 then
             (self1\<lparr> idle_silence_chunks := 0 \<rparr>, Some (TurnEvent NUDGE None))
           else (self1, None))"

definition chunk_listening :: "TurnTakingEngine \<Rightarrow> bytes \<Rightarrow> bool \<Rightarrow> TurnTakingEngine \<times> TurnEvent option" where
  "chunk_listening self pcm_bytes voice =
     (if voice then
        (self\<lparr> buffer := buffer self @ pcm_bytes, speech_chunks := speech_chunks self + 1,
               silence_chunks := 0 \<rparr>, None)
      else
        let self1 = self\<lparr> buffer := buffer self @ pcm_bytes,
                          silence_chunks := silence_chunks self + 1 \<rparr>
        in if silence_chunks self1 \<ge> silence_grace_chunks self1 then
             (if speech_chunks self1 \<ge> min_speech_chunks self1 then
                (self1\<lparr> state := CANDIDATE_END, silence_chunks := 0 \<rparr>, None)
              else
                (self1\<lparr> state := IDLE, buffer := [], speech_chunks := 0, silence_chunks := 0 \<rparr>,
                 None))
           else (self1, None))"

definition chunk_candidate_end :: "TurnTakingEngine \<Rightarrow> bytes \<Rightarrow> bool \<Rightarrow> TurnTakingEngine \<times> TurnEvent option" where
  "chunk_candidate_end self pcm_bytes voice =
     (if voice then
        (self\<lparr> state := LISTENING, buffer := buffer self @ pcm_bytes,
               speech_chunks := speech_chunks self + 1, silence_chunks := 0 \<rparr>, None)
      else
        let self1 = self\<lparr> buffer := buffer self @ pcm_bytes,
                          silence_chunks := silence_chunks self + 1 \<rparr>
        in if silence_chunks self1 \<ge> confirmation_chunks self1 then
             (self1, Some (TurnEvent TURN_END (Some (buffer self1))))
           else (self1, None))"

definition chunk_waiting_incomplete :: "TurnTakingEngine \<Rightarrow> bytes \<Rightarrow> bool \<Rightarrow> TurnTakingEngine \<times> TurnEvent option" where
  "chunk_waiting_incomplete self pcm_bytes voice =
     (if voice then
        (self\<lparr> state := LISTENING, buffer := buffer self @ pcm_bytes,
               speech_chunks := speech_chunks self + 1, silence_chunks := 0 \<rparr>, None)
      else
        let self1 = self\<lparr> silence_chunks := silence_chunks self + 1 \<rparr>
        in if silence_chunks self1 \<ge> comfort_wait_chunks self1 then
             (reset self1, Some (TurnEvent COMFORT None))
           else if silence_chunks self1 \<ge> incomplete_wait_chunks self1 then
             (reset self1, Some (TurnEvent CONTINUATION_CUE None))
           else (self1, None))"

definition process_chunk :: "vad_env \<Rightarrow> TurnTakingEngine \<Rightarrow> bytes \<Rightarrow> TurnTakingEngine \<times> TurnEvent option" where
  "process_chunk env self pcm_bytes =
     (if pcm_bytes = [] then (self, None)
      else if length pcm_bytes < FRAME_BYTES then
        (if state self = LISTENING \<or> state self = CANDIDATE_END then
           (self\<lparr> buffer := buffer self @ pcm_bytes \<rparr>, None)
         else (self, None))
      else
        let vad_result = has_voice_uncertain env pcm_bytes SAMPLE_RATE;
            vad_prob = vad_probability env pcm_bytes SAMPLE_RATE
        in case vad_result of
             None \<Rightarrow>
               (if state self = LISTENING \<or> state self = CANDIDATE_END then
                  (self\<lparr> buffer := buffer self @ pcm_bytes \<rparr>, None)
                else if state self = IDLE \<and> vad_prob \<ge> 0.1 then
                  (start_listening self pcm_bytes, None)
                else (self, None))
           | Some voice \<Rightarrow>
               (case state self of
                  IDLE \<Rightarrow> chunk_idle self pcm_bytes voice
                | LISTENING \<Rightarrow> chunk_listening self pcm_bytes voice
                | CANDIDATE_END \<Rightarrow> chunk_candidate_end self pcm_bytes voice
                | WAITING_INCOMPLETE \<Rightarrow> chunk_waiting_incomplete self pcm_bytes voice))"

subsection \<open>Runs of calls on one engine\<close>

text \<open>
  The three public methods of the engine as one datatype of calls; \<open>calls\<close> is the
  engine after a sequence of them and \<open>run_chunks\<close> feeds a list of chunks to
  \<open>process_chunk\<close> and collects the event of each call.
\<close>

datatype engine_call = ProcessChunk bytes | TurnEndIncomplete | FinalizeTurn

fun call :: "vad_env \<Rightarrow> TurnTakingEngine \<Rightarrow> engine_call \<Rightarrow> TurnTakingEngine \<times> TurnEvent option" where
  "call env e (ProcessChunk pcm_bytes) = process_chunk env e pcm_bytes"
| "call env e TurnEndIncomplete = (turn_end_incomplete e, None)"
| "call env e FinalizeTurn = (finalize_turn e, None)"

fun calls :: "vad_env \<Rightarrow> TurnTakingEngine \<Rightarrow> engine_call list \<Rightarrow> TurnTakingEngine" where
  "calls env e [] = e"
| "calls env e (c # cs) = calls env (fst (call env e c)) cs"

fun run_chunks :: "vad_env \<Rightarrow> TurnTakingEngine \<Rightarrow> bytes list \<Rightarrow> TurnTakingEngine \<times> TurnEvent option list" where
  "run_chunks env e [] = (e, [])"
| "run_chunks env e (c # cs) =
     (case process_chunk env e c of (e1, ev) \<Rightarrow>
        (case run_chunks env e1 cs of (e2, evs) \<Rightarrow> (e2, ev # evs)))"

text \<open>
  How \<open>process_chunk\<close> classifies a chunk: an empty chunk and a chunk shorter than one
  frame never reach the detector; any other chunk is speech (\<open>Some True\<close>), silence
  (\<open>Some False\<close>) or uncertain (\<open>None\<close>) by \<open>has_voice_uncertain\<close>.
\<close>

definition classify :: "vad_env \<Rightarrow> bytes \<Rightarrow> bool option" where
  "classify env pcm_bytes =
     (if pcm_bytes = [] \<or> length pcm_bytes < FRAME_BYTES then None
      else has_voice_uncertain env pcm_bytes SAMPLE_RATE)"

fun speech_call :: "vad_env \<Rightarrow> engine_call \<Rightarrow> bool" where
  "speech_call env (ProcessChunk pcm_bytes) = (classify env pcm_bytes = Some True)"
| "speech_call env TurnEndIncomplete = False"
| "speech_call env FinalizeTurn = False"

fun silence_call :: "vad_env \<Rightarrow> engine_call \<Rightarrow> bool" where
  "silence_call env (ProcessChunk pcm_bytes) = (classify env pcm_bytes = Some False)"
| "silence_call env TurnEndIncomplete = False"
| "silence_call env FinalizeTurn = False"

text \<open>The calls after the last speech chunk, and the number of silent chunks among them.\<close>

definition silent_tail :: "vad_env \<Rightarrow> engine_call list \<Rightarrow> engine_call list" where
  "silent_tail env cs = rev (takeWhile (\<lambda>c. \<not> speech_call env c) (rev cs))"

definition trailing_silence :: "vad_env \<Rightarrow> engine_call list \<Rightarrow> nat" where
  "trailing_silence env cs = length (filter (silence_call env) (silent_tail env cs))"

subsection \<open>Concrete frames\<close>

text \<open>
  An installation without webrtcvad, where every chunk goes through the energy fallback,
  and three 640-byte frames: all samples 0 (probability 0.0), all samples 0x4040 = 16448
  (probability 1.0) and all samples 0x0101 = 257 (probability 0.3). \<open>default_engine\<close> is
  the engine that \<open>TurnTakingEngine()\<close> builds.
\<close>

definition env_energy :: vad_env where
  "env_energy = \<lparr> VAD_AVAILABLE = False, Vad = None \<rparr>"

definition silent_frame :: bytes where
  "silent_frame = replicate 640 0"

definition speech_frame :: bytes where
  "speech_frame = replicate 640 64"

definition weak_frame :: bytes where
  "weak_frame = replicate 640 1"

definition default_engine :: TurnTakingEngine where
  "default_engine = \<lparr>
        chunk_ms = 200,
        state = IDLE,
        buffer = [],
        silence_chunks = 0,
        speech_chunks = 0,
        idle_silence_chunks = 0,
        consecutive_speech_frames = 0,
        silence_grace_chunks = 5,
        confirmation_chunks = 2,
        min_speech_chunks = 2,
        nudge_chunks = 8,
        incomplete_wait_chunks = 2,
        comfort_wait_chunks = 8,
        barge_in_frames = None \<rparr>"

text \<open>Two chunks of speech and six of silence: one silent chunk short of a TURN_END.\<close>

definition demo_calls :: "engine_call list" where
  "demo_calls =
     [ProcessChunk speech_frame, ProcessChunk speech_frame,
      ProcessChunk silent_frame, ProcessChunk silent_frame, ProcessChunk silent_frame,
      ProcessChunk silent_frame, ProcessChunk silent_frame, ProcessChunk silent_frame]"

definition demo_engine :: TurnTakingEngine where
  "demo_engine = default_engine\<lparr> state := CANDIDATE_END,
      buffer := speech_frame @ speech_frame @ silent_frame @ silent_frame @ silent_frame
                @ silent_frame @ silent_frame @ silent_frame,
      speech_chunks := 2, silence_chunks := 1 \<rparr>"

section \<open>Confidence routing (confidence\_router.py)\<close>

datatype ConfidenceAction = ACCEPT | CLARIFY | REJECT

record ConfidenceRouter =
  high_threshold :: real
  low_threshold :: real

text \<open>\<open>__init__(high_threshold = 0.8, low_threshold = 0.2)\<close>; \<open>None\<close> is an argument left out.\<close>

definition ConfidenceRouter_init :: "real option \<Rightarrow> real option \<Rightarrow> ConfidenceRouter" where
  "ConfidenceRouter_init high low =
     \<lparr> high_threshold = (case high of None \<Rightarrow> 0.8 | Some h \<Rightarrow> h),
       low_threshold = (case low of None \<Rightarrow> 0.2 | Some l \<Rightarrow> l) \<rparr>"

text \<open>
  The ASR result is a dict with the keys \<open>confidence\<close>, \<open>text\<close> and \<open>language\<close>;
  \<open>None\<close> is a key that is absent. The confidence is a float, modelled as a real.
\<close>

record asr_result =
  asr_confidence :: "real option"
  asr_text :: "string option"
  asr_language :: "string option"

definition route :: "ConfidenceRouter \<Rightarrow> asr_result \<Rightarrow> ConfidenceAction \<times> string" where
  "route self r =
     (let confidence = (case asr_confidence r of None \<Rightarrow> 0 | Some c \<Rightarrow> c);
          txt = (case asr_text r of None \<Rightarrow> [] | Some t \<Rightarrow> t)
      in if confidence \<ge> high_threshold self then (ACCEPT, txt)
         else if confidence \<ge> low_threshold self then (CLARIFY, txt)
         else (REJECT, []))"

definition router_clarification_message :: "real \<Rightarrow> string" where
  "router_clarification_message confidence =
     (if confidence \<ge> 0.7 then ''I think I heard you, but could you confirm that?''
      else if confidence \<ge> 0.4 then ''I didn't catch that clearly. Could you please repeat?''
      else ''I didn't catch that clearly. Could you please repeat?'')"

section \<open>Conversation engine (conversation\_engine.py)\<close>

subsection \<open>Python strings and the store\<close>

text \<open>
  A Python \<open>str\<close> is modelled as a list of 8-bit characters. \<open>str.strip()\<close> removes
  the characters that \<open>str.isspace\<close> accepts at both ends.
\<close>

definition is_space :: "char \<Rightarrow> bool" where
  "is_space c \<longleftrightarrow> (of_char c :: nat) \<in> {9, 10, 11, 12, 13, 28, 29, 30, 31, 32, 133, 160}"

definition py_strip :: "string \<Rightarrow> string" where
  "py_strip s = rev (dropWhile is_space (rev (dropWhile is_space s)))"

text \<open>\<open>str(n)\<close> for an int: the decimal digits, after a minus sign when negative.\<close>

definition digit_char :: "nat \<Rightarrow> char" where
  "digit_char d = ''0123456789'' ! d"

fun dec_str :: "nat \<Rightarrow> string" where
  "dec_str n = (if n < 10 then [digit_char n] else dec_str (n div 10) @ [digit_char (n mod 10)])"

declare dec_str.simps [simp del]

definition py_str :: "int \<Rightarrow> string" where
  "py_str n = (if n < 0 then CHR ''-'' # dec_str (nat (- n)) else dec_str (nat n))"

text \<open>
  \<open>int(s)\<close> for a str. The whitespace that \<open>int\<close> drops at both ends is narrower
  than that of \<open>strip\<close>: the characters 0x1C to 0x1F stay and make the call fail. After
  an optional sign, decimal digits must follow, with single underscores allowed between
  two digits; anything else raises ValueError.
\<close>

definition is_int_space :: "char \<Rightarrow> bool" where
  "is_int_space c \<longleftrightarrow> (of_char c :: nat) \<in> {9, 10, 11, 12, 13, 32, 133, 160}"

definition int_strip :: "string \<Rightarrow> string" where
  "int_strip s = rev (dropWhile is_int_space (rev (dropWhile is_int_space s)))"

definition digit_value :: "char \<Rightarrow> nat option" where
  "digit_value c =
     (let n = (of_char c :: nat) in if 48 \<le> n \<and> n \<le> 57 then Some (n - 48) else None)"

fun dec_value :: "string \<Rightarrow> nat \<Rightarrow> nat option" where
  "dec_value [] acc = None"
| "dec_value (c # cs) acc =
     (case digit_value c of
        None \<Rightarrow> None
      | Some d \<Rightarrow>
          (case cs of
             [] \<Rightarrow> Some (10 * acc + d)
           | c' # cs' \<Rightarrow>
               if c' = CHR ''_'' then dec_value cs' (10 * acc + d)
               else dec_value cs (10 * acc + d)))"

definition py_int :: "string \<Rightarrow> py_error + int" where
  "py_int s =
     (case int_strip s of
        [] \<Rightarrow> Inl ValueError
      | c # cs \<Rightarrow>
          if c = CHR ''-'' \<or> c = CHR ''+'' then
            (case dec_value cs 0 of
               None \<Rightarrow> Inl ValueError
             | Some n \<Rightarrow> Inr (if c = CHR ''-'' then - int n else int n))
          else (case dec_value (c # cs) 0 of
                  None \<Rightarrow> Inl ValueError
                | Some n \<Rightarrow> Inr (int n)))"

text \<open>The characters that \<open>str(n)\<close> writes for a natural number.\<close>

definition is_digit :: "char \<Rightarrow> bool" where
  "is_digit c \<longleftrightarrow> (\<exists>d < 10. c = digit_char d)"

definition bind_result :: "py_error + 'a \<Rightarrow> ('a \<Rightarrow> py_error + 'b) \<Rightarrow> py_error + 'b" where
  "bind_result m f = (case m of Inl e \<Rightarrow> Inl e | Inr x \<Rightarrow> f x)"

text \<open>
  The Redis client is created with \<open>decode_responses=True\<close>: a hash maps field names to
  strings, and the store maps keys to hashes (a missing key is the empty hash).
\<close>

type_synonym redis = "string \<Rightarrow> string \<rightharpoonup> string"

definition hget :: "redis \<Rightarrow> string \<Rightarrow> string \<Rightarrow> string option" where
  "hget r k f = r k f"

definition hset :: "redis \<Rightarrow> string \<Rightarrow> string \<Rightarrow> string \<Rightarrow> redis" where
  "hset r k f v = r(k := (r k)(f \<mapsto> v))"

fun hset_mapping :: "redis \<Rightarrow> string \<Rightarrow> (string \<times> string) list \<Rightarrow> redis" where
  "hset_mapping r k [] = r"
| "hset_mapping r k ((f, v) # fvs) = hset_mapping (hset r k f v) k fvs"

definition conversation_key :: "string \<Rightarrow> string" where
  "conversation_key session_id = ''conversation:'' @ session_id"

text \<open>\<open>int(self.redis.hget(key, field) or "0")\<close>: a missing or empty field counts as 0.\<close>

definition hget_int :: "redis \<Rightarrow> string \<Rightarrow> string \<Rightarrow> py_error + int" where
  "hget_int r k f =
     py_int (case hget r k f of None \<Rightarrow> ''0'' | Some s \<Rightarrow> if s = [] then ''0'' else s)"

subsection \<open>States\<close>

text \<open>
  \<open>ConversationState.LISTENING\<close> is written \<open>LISTENING_conv\<close>: the name
  \<open>LISTENING\<close> is the state of the turn engine.
\<close>

datatype ConversationState =
  INIT | GREETING | LISTENING_conv | PROCESSING | RESPONDING | CLARIFYING | ERROR | END

fun state_value :: "ConversationState \<Rightarrow> string" where
  "state_value INIT = ''INIT''"
| "state_value GREETING = ''GREETING''"
| "state_value LISTENING_conv = ''LISTENING''"
| "state_value PROCESSING = ''PROCESSING''"
| "state_value RESPONDING = ''RESPONDING''"
| "state_value CLARIFYING = ''CLARIFYING''"
| "state_value ERROR = ''ERROR''"
| "state_value END = ''END''"

text \<open>\<open>ConversationState(s)\<close>; \<open>None\<close> is the ValueError of an unknown name.\<close>

definition state_of_value :: "string \<Rightarrow> ConversationState option" where
  "state_of_value s =
     (if s = ''INIT'' then Some INIT
      else if s = ''GREETING'' then Some GREETING
      else if s = ''LISTENING'' then Some LISTENING_conv
      else if s = ''PROCESSING'' then Some PROCESSING
      else if s = ''RESPONDING'' then Some RESPONDING
      else if s = ''CLARIFYING'' then Some CLARIFYING
      else if s = ''ERROR'' then Some ERROR
      else if s = ''END'' then Some END
      else None)"

datatype InputQuality = EMPTY | UNCLEAR | CLEAR

record ConversationEngine =
  max_clarifications :: int
  max_silence_prompts :: int
  max_turns :: int
  confidence_router :: ConfidenceRouter

definition ConversationEngine_init :: ConversationEngine where
  "ConversationEngine_init =
     \<lparr> max_clarifications = 2, max_silence_prompts = 2, max_turns = 20,
       confidence_router = ConfidenceRouter_init None None \<rparr>"

subsection \<open>Operations on the session row\<close>

text \<open>
  Every operation takes the store and returns the updated store. \<open>now\<close> is the string
  \<open>datetime.utcnow().isoformat()\<close> at the time of the call.
\<close>

definition initialize :: "redis \<Rightarrow> string \<Rightarrow> string \<Rightarrow> redis \<times> ConversationState" where
  "initialize r now session_id =
     (hset_mapping r (conversation_key session_id)
        [(''state'', state_value INIT),
         (''turn_count'', ''0''),
         (''clarification_count'', ''0''),
         (''silence_prompts'', ''0''),
         (''last_user_input'', []),
         (''last_intent'', []),
         (''created_at'', now),
         (''updated_at'', now)],
      INIT)"

definition get_state :: "redis \<Rightarrow> string \<Rightarrow> ConversationState option" where
  "get_state r session_id =
     (case hget r (conversation_key session_id) ''state'' of
        None \<Rightarrow> None
      | Some state_str \<Rightarrow> if state_str = [] then None else state_of_value state_str)"

definition update_state :: "redis \<Rightarrow> string \<Rightarrow> string \<Rightarrow> ConversationState \<Rightarrow> redis" where
  "update_state r now session_id new_state =
     hset (hset r (conversation_key session_id) ''state'' (state_value new_state))
       (conversation_key session_id) ''updated_at'' now"

definition increment_field :: "redis \<Rightarrow> string \<Rightarrow> string \<Rightarrow> py_error + redis" where
  "increment_field r session_id f =
     bind_result (hget_int r (conversation_key session_id) f)
       (\<lambda>current. Inr (hset r (conversation_key session_id) f (py_str (current + 1))))"

definition increment_turn :: "redis \<Rightarrow> string \<Rightarrow> py_error + redis" where
  "increment_turn r session_id = increment_field r session_id ''turn_count''"

definition increment_clarification :: "redis \<Rightarrow> string \<Rightarrow> py_error + redis" where
  "increment_clarification r session_id = increment_field r session_id ''clarification_count''"

definition increment_silence_prompt :: "redis \<Rightarrow> string \<Rightarrow> py_error + redis" where
  "increment_silence_prompt r session_id = increment_field r session_id ''silence_prompts''"

definition get_greeting :: string where
  "get_greeting = ''Hello! Welcome to SmileCare Dental Clinic. How can I help you today?''"

definition get_clarification_message :: "redis \<Rightarrow> string \<Rightarrow> py_error + string" where
  "get_clarification_message r session_id =
     bind_result (hget_int r (conversation_key session_id) ''clarification_count'')
       (\<lambda>count. Inr (if count = 1 then ''I didn't catch that clearly. Could you please repeat?''
                      else ''I'm still having trouble understanding. Could you speak more clearly?''))"

definition get_error_message :: string where
  "get_error_message =
     ''I'm having trouble understanding you. Let me connect you to a human representative who can assist you better.''"

definition get_silence_prompt :: "redis \<Rightarrow> string \<Rightarrow> py_error + string" where
  "get_silence_prompt r session_id =
     bind_result (hget_int r (conversation_key session_id) ''silence_prompts'')
       (\<lambda>count. Inr (if count = 0 then ''I'm listening. Please go ahead and speak.''
                      else if count = 1 then ''I'm still here. Please tell me how I can help you.''
                      else ''I didn't hear anything. If you need assistance, please speak now or I'll end this call.''))"

text \<open>\<open>not user_text or len(user_text.strip()) == 0\<close>, for an optional string.\<close>

definition no_text :: "string option \<Rightarrow> bool" where
  "no_text user_text =
     (case user_text of None \<Rightarrow> True | Some s \<Rightarrow> s = [] \<or> length (py_strip s) = 0)"

definition text_or_empty :: "string option \<Rightarrow> string" where
  "text_or_empty user_text = (case user_text of None \<Rightarrow> [] | Some s \<Rightarrow> s)"

text \<open>
  The language model is outside the repository: \<open>groq\<close> maps the prompt to the content
  of the first choice, or to \<open>None\<close> when the call raises. \<open>str.upper()\<close> is modelled on
  the letters a to z.
\<close>

definition upper_char :: "char \<Rightarrow> char" where
  "upper_char c =
     (let n = (of_char c :: nat) in if 97 \<le> n \<and> n \<le> 122 then char_of (n - 32) else c)"

definition quality_prompt :: "string \<Rightarrow> string" where
  "quality_prompt user_text =
     ''Analyze this user input and classify it as one of:'' @ [CHR 0x0A]
     @ ''- CLEAR: Meaningful, understandable input'' @ [CHR 0x0A]
     @ ''- UNCLEAR: Nonsensical, too short, or unintelligible'' @ [CHR 0x0A, CHR 0x0A]
     @ ''User input: '' @ [CHR 0x22] @ user_text @ [CHR 0x22, CHR 0x0A, CHR 0x0A]
     @ ''Respond with ONLY one word: CLEAR or UNCLEAR''"

definition analyze_input_quality :: "(string \<Rightarrow> string option) \<Rightarrow> string \<Rightarrow> InputQuality" where
  "analyze_input_quality groq user_text =
     (if user_text = [] \<or> length (py_strip user_text) = 0 then EMPTY
      else
        let txt = py_strip user_text
        in if length txt < 3 then UNCLEAR
           else (case groq (quality_prompt user_text) of
                   Some content \<Rightarrow>
                     if sublist ''CLEAR'' (map upper_char (py_strip content)) then CLEAR else UNCLEAR
                 | None \<Rightarrow> if length txt > 3 then CLEAR else UNCLEAR))"

subsection \<open>The state machine\<close>

text \<open>
  \<open>process_state_transition\<close> returns the updated store and the triple
  \<open>(new_state, response_text, should_end)\<close>, or the error that \<open>int()\<close> raised on a
  counter that is not a number.
\<close>

definition silence_after_increment ::
  "ConversationEngine \<Rightarrow> string \<Rightarrow> redis \<Rightarrow> string
     \<Rightarrow> py_error + redis \<times> ConversationState \<times> string \<times> bool" where
  "silence_after_increment self now r session_id =
     bind_result (increment_silence_prompt r session_id) (\<lambda>r1.
     bind_result (hget_int r1 (conversation_key session_id) ''silence_prompts'') (\<lambda>silence_count.
       if silence_count \<ge> max_silence_prompts self then
         Inr (update_state r1 now session_id END,
              END, ''Thank you for calling. Have a great day!'', True)
       else
         bind_result (get_silence_prompt (update_state r1 now session_id LISTENING_conv) session_id)
           (\<lambda>prompt. Inr (update_state r1 now session_id LISTENING_conv,
                           LISTENING_conv, prompt, False))))"

definition process_state_transition ::
  "ConversationEngine \<Rightarrow> (string \<Rightarrow> string option) \<Rightarrow> string \<Rightarrow> redis \<Rightarrow> string \<Rightarrow> string option
     \<Rightarrow> py_error + redis \<times> ConversationState \<times> string \<times> bool" where
  "process_state_transition self groq now r0 session_id user_text =
     (let (r, current_state) =
            (case get_state r0 session_id of
               None \<Rightarrow> (fst (initialize r0 now session_id), INIT)
             | Some s \<Rightarrow> (r0, s));
          k = conversation_key session_id
      in case current_state of
           INIT \<Rightarrow> Inr (update_state r now session_id GREETING, GREETING, get_greeting, False)
         | GREETING \<Rightarrow> Inr (update_state r now session_id LISTENING_conv, LISTENING_conv, [], False)
         | LISTENING_conv \<Rightarrow>
             if no_text user_text then
               bind_result (hget_int r k ''silence_prompts'') (\<lambda>silence_count.
               bind_result (increment_silence_prompt r session_id) (\<lambda>r1.
                 if silence_count \<ge> max_silence_prompts self then
                   Inr (update_state r1 now session_id END,
                        END, ''Thank you for calling. Have a great day!'', True)
                 else
                   bind_result (get_silence_prompt r1 session_id)
                     (\<lambda>prompt. Inr (r1, LISTENING_conv, prompt, False))))
             else
               Inr (update_state (hset r k ''last_user_input'' (text_or_empty user_text))
                      now session_id PROCESSING,
                    PROCESSING, [], False)
         | PROCESSING \<Rightarrow>
             (case analyze_input_quality groq (text_or_empty user_text) of
                EMPTY \<Rightarrow> silence_after_increment self now r session_id
              | UNCLEAR \<Rightarrow>
                  bind_result (hget_int r k ''clarification_count'') (\<lambda>clarification_count.
                  bind_result (increment_clarification r session_id) (\<lambda>r1.
                    if clarification_count \<ge> max_clarifications self then
                      Inr (update_state r1 now session_id ERROR, ERROR, get_error_message, True)
                    else
                      bind_result
                        (get_clarification_message (update_state r1 now session_id CLARIFYING) session_id)
                        (\<lambda>msg. Inr (update_state r1 now session_id CLARIFYING,
                                     CLARIFYING, msg, False))))
              | CLEAR \<Rightarrow> Inr (update_state r now session_id RESPONDING, RESPONDING, [], False))
         | CLARIFYING \<Rightarrow>
             if no_text user_text then silence_after_increment self now r session_id
             else
               Inr (update_state (hset r k ''last_user_input'' (text_or_empty user_text))
                      now session_id PROCESSING,
                    PROCESSING, [], False)
         | RESPONDING \<Rightarrow>
             bind_result (increment_turn r session_id) (\<lambda>r1.
             bind_result (hget_int r1 k ''turn_count'') (\<lambda>turn_count.
               if turn_count \<ge> max_turns self then
                 Inr (update_state r1 now session_id END,
                      END, ''Thank you for the conversation. Have a great day!'', True)
               else
                 Inr (update_state r1 now session_id LISTENING_conv, LISTENING_conv, [], False)))
         | ERROR \<Rightarrow> Inr (update_state r now session_id END, END, [], True)
         | END \<Rightarrow> Inr (r, END, [], True))"

text \<open>
  A sequence of calls on one session: each call has its own timestamp and user text; the
  outputs are collected in order, and the first error ends the sequence.
\<close>

fun transitions ::
  "ConversationEngine \<Rightarrow> (string \<Rightarrow> string option) \<Rightarrow> redis \<Rightarrow> string \<Rightarrow> (string \<times> string option) list
     \<Rightarrow> py_error + redis \<times> (ConversationState \<times> string \<times> bool) list" where
  "transitions self groq r session_id [] = Inr (r, [])"
| "transitions self groq r session_id ((now, user_text) # rest) =
     bind_result (process_state_transition self groq now r session_id user_text) (\<lambda>(r1, out).
     bind_result (transitions self groq r1 session_id rest) (\<lambda>(r2, outs). Inr (r2, out # outs)))"

subsection \<open>Concrete sessions\<close>

text \<open>
  A language model whose every call raises, an empty store, a session \<open>s\<close> in state
  RESPONDING after 19 turns, and a session \<open>s\<close> in state LISTENING with no silence
  prompt so far.
\<close>

definition no_groq :: "string \<Rightarrow> string option" where
  "no_groq prompt = None"

definition empty_redis :: redis where
  "empty_redis = (\<lambda>k. Map.empty)"

definition responding_store :: redis where
  "responding_store =
     hset (hset empty_redis (conversation_key ''s'') ''state'' ''RESPONDING'')
       (conversation_key ''s'') ''turn_count'' ''19''"

definition listening_store :: redis where
  "listening_store =
     hset (hset empty_redis (conversation_key ''s'') ''state'' ''LISTENING'')
       (conversation_key ''s'') ''silence_prompts'' ''0''"

section \<open>Barge-in in the frame loop (app.py, websocket\_voice)\<close>

text \<open>
  The part of the connection state that the frame loop reads and writes while the bot
  speaks, and the messages sent over the socket so far. \<open>send_json\<close> appends to
  \<open>outbox\<close> and is taken to succeed. \<open>BargeInMessage\<close> is \<open>{"type": "barge_in"}\<close>;
  every other message (a response, a transcription) is \<open>OtherMessage\<close>.
\<close>

datatype ws_message = BargeInMessage | OtherMessage

record connection =
  bot_speaking :: bool
  bot_speaking_until :: real
  turn_engine :: TurnTakingEngine
  outbox :: "ws_message list"

text \<open>
  The \<open>try\<close> block of the loop body for one frame. \<open>now\<close> is \<open>time.time()\<close>. The
  boolean of the result says that the block ended in \<open>continue\<close>, so the frame does
  not reach the turn engine.
\<close>

definition barge_in_block :: "connection \<Rightarrow> real \<Rightarrow> real \<Rightarrow> connection \<times> bool" where
  "barge_in_block conn vad_prob now =
     (if bot_speaking conn then
        (if vad_prob \<ge> 0.6 then
           let te = turn_engine conn;
               frames = (case barge_in_frames te of None \<Rightarrow> 0 | Some n \<Rightarrow> n) + 1
           in if frames \<ge> 2 then
                (conn\<lparr> bot_speaking := False,
                       turn_engine := te\<lparr> barge_in_frames := Some 0 \<rparr>,
                       outbox := outbox conn @ [BargeInMessage] \<rparr>, False)
              else (conn\<lparr> turn_engine := te\<lparr> barge_in_frames := Some frames \<rparr> \<rparr>, False)
         else
           let te = turn_engine conn;
               te1 = (case barge_in_frames te of None \<Rightarrow> te
                      | Some n \<Rightarrow> te\<lparr> barge_in_frames := Some 0 \<rparr>)
           in if now \<le> bot_speaking_until conn then (conn\<lparr> turn_engine := te1 \<rparr>, True)
              else (conn\<lparr> turn_engine := te1, bot_speaking := False \<rparr>, False))
      else (conn, False))"

text \<open>
  The loop body for one frame up to \<open>if ev is None: continue\<close>: the probability of the
  frame, the barge-in block, then \<open>process_chunk\<close>. The event, if any, goes to the
  handlers that follow in the source (speech synthesis, recognition, the conversation
  engine), which are not modelled.
\<close>

definition frame_step :: "vad_env \<Rightarrow> connection \<Rightarrow> bytes \<Rightarrow> real \<Rightarrow> connection \<times> TurnEvent option" where
  "frame_step env conn frame now =
     (let vad_prob = vad_probability env frame SAMPLE_RATE
      in case barge_in_block conn vad_prob now of
           (conn1, True) \<Rightarrow> (conn1, None)
         | (conn1, False) \<Rightarrow>
             (case process_chunk env (turn_engine conn1) frame of
                (te, ev) \<Rightarrow> (conn1\<lparr> turn_engine := te \<rparr>, ev)))"

text \<open>
  The connection when the frame loop starts: a new engine, \<open>bot_speaking = False\<close> and
  \<open>bot_speaking_until = 0.0\<close>; when the conversation is in INIT, the greeting has been
  sent and the bot speaks until the end of its audio (\<open>Some until\<close>).
\<close>

definition websocket_open :: "TurnTakingEngine \<Rightarrow> real option \<Rightarrow> connection" where
  "websocket_open e greeting =
     (case greeting of
        None \<Rightarrow> \<lparr> bot_speaking = False, bot_speaking_until = 0, turn_engine = e, outbox = [] \<rparr>
      | Some until \<Rightarrow>
          \<lparr> bot_speaking = True, bot_speaking_until = until, turn_engine = e,
            outbox = [OtherMessage] \<rparr>)"

text \<open>
  What the handlers of a turn event do to this state. Whatever the event and whatever
  recognition, the conversation engine and speech synthesis answer, a handler does at most
  this: it calls \<open>finalize_turn\<close> or \<open>turn_end_incomplete\<close> on the engine, it sets
  \<open>bot_speaking = True\<close> with a new \<open>bot_speaking_until\<close>, and it sends responses and
  transcriptions. No handler reads or writes \<open>_barge_in_frames\<close> and none sends a
  barge-in message. A handler that leaves the loop (\<open>break\<close>, or an exception) ends the
  run.
\<close>

datatype turn_outcome = TurnKept | TurnFinalized | TurnIncomplete

record handler_effect =
  eff_turn :: turn_outcome
  eff_speaking_until :: "real option"
  eff_sent :: nat

definition apply_effect :: "connection \<Rightarrow> handler_effect \<Rightarrow> connection" where
  "apply_effect conn eff =
     conn\<lparr> turn_engine :=
              (case eff_turn eff of
                 TurnKept \<Rightarrow> turn_engine conn
               | TurnFinalized \<Rightarrow> finalize_turn (turn_engine conn)
               | TurnIncomplete \<Rightarrow> turn_end_incomplete (turn_engine conn)),
            bot_speaking :=
              (case eff_speaking_until eff of None \<Rightarrow> bot_speaking conn | Some until \<Rightarrow> True),
            bot_speaking_until :=
              (case eff_speaking_until eff of
                 None \<Rightarrow> bot_speaking_until conn
               | Some until \<Rightarrow> until),
            outbox := outbox conn @ replicate (eff_sent eff) OtherMessage \<rparr>"

text \<open>
  The whole loop body for one frame: \<open>frame_step\<close>, then the handler when there is an
  event. \<open>run_frames\<close> is the loop over the frames of a connection; each frame comes
  with the time at which it is processed and with what its handler would do. Text
  messages and legacy WebM chunks that arrive between two frames touch none of this state
  except that they may send other messages; a run leaves them out.
\<close>

definition loop_body :: "vad_env \<Rightarrow> connection \<Rightarrow> bytes \<Rightarrow> real \<Rightarrow> handler_effect \<Rightarrow> connection" where
  "loop_body env conn frame now eff =
     (case frame_step env conn frame now of
        (conn1, None) \<Rightarrow> conn1
      | (conn1, Some ev) \<Rightarrow> apply_effect conn1 eff)"

fun run_frames :: "vad_env \<Rightarrow> connection \<Rightarrow> (bytes \<times> real \<times> handler_effect) list \<Rightarrow> connection" where
  "run_frames env conn [] = conn"
| "run_frames env conn ((frame, now, eff) # rest) =
     run_frames env (loop_body env conn frame now eff) rest"

text \<open>The number of barge-in messages sent so far.\<close>

definition barge_ins :: "connection \<Rightarrow> nat" where
  "barge_ins conn = length (filter (\<lambda>m. m = BargeInMessage) (outbox conn))"

text \<open>
  The last frame of a run was a frame of probability at least 0.6, processed while the
  bot was speaking.
\<close>

definition last_high :: "vad_env \<Rightarrow> connection \<Rightarrow> (bytes \<times> real \<times> handler_effect) list \<Rightarrow> bool" where
  "last_high env conn0 steps \<longleftrightarrow>
     (\<exists>pre frame now eff. steps = pre @ [(frame, now, eff)]
        \<and> vad_probability env frame SAMPLE_RATE \<ge> 0.6
        \<and> bot_speaking (run_frames env conn0 pre))"

text \<open>
  The counter \<open>_barge_in_frames\<close> is absent, 0 or 1, and it is 1 only while the bot
  speaks and right after a high frame.
\<close>

definition counter_inv :: "vad_env \<Rightarrow> connection \<Rightarrow> (bytes \<times> real \<times> handler_effect) list \<Rightarrow> bool" where
  "counter_inv env conn0 steps \<longleftrightarrow>
     barge_in_frames (turn_engine (run_frames env conn0 steps)) = None
     \<or> barge_in_frames (turn_engine (run_frames env conn0 steps)) = Some 0
     \<or> (barge_in_frames (turn_engine (run_frames env conn0 steps)) = Some 1
         \<and> bot_speaking (run_frames env conn0 steps)
         \<and> last_high env conn0 steps)"

text \<open>A handler that does nothing.\<close>

definition no_effect :: handler_effect where
  "no_effect = \<lparr> eff_turn = TurnKept, eff_speaking_until = None, eff_sent = 0 \<rparr>"

section \<open>Invariants of the turn engine\<close>

text \<open>The six thresholds are set by the constructor and never written again.\<close>

definition thresholds_eq :: "TurnTakingEngine \<Rightarrow> TurnTakingEngine \<Rightarrow> bool" where
  "thresholds_eq a b \<longleftrightarrow>
     silence_grace_chunks a = silence_grace_chunks b \<and> confirmation_chunks a = confirmation_chunks b
     \<and> min_speech_chunks a = min_speech_chunks b \<and> nudge_chunks a = nudge_chunks b
     \<and> incomplete_wait_chunks a = incomplete_wait_chunks b
     \<and> comfort_wait_chunks a = comfort_wait_chunks b"

text \<open>The minimum-speech gate: CANDIDATE_END is entered only with enough speech.\<close>

definition speech_gate :: "TurnTakingEngine \<Rightarrow> bool" where
  "speech_gate e \<longleftrightarrow> (state e = CANDIDATE_END \<longrightarrow> min_speech_chunks e \<le> speech_chunks e)"

text \<open>
  The silence counter never runs ahead of the silent chunks seen since the last speech
  chunk; in CANDIDATE_END the grace window lies behind it as well.
\<close>

definition silence_inv :: "vad_env \<Rightarrow> engine_call list \<Rightarrow> TurnTakingEngine \<Rightarrow> bool" where
  "silence_inv env cs e \<longleftrightarrow>
     (state e = LISTENING \<longrightarrow> silence_chunks e \<le> int (trailing_silence env cs))
     \<and> (state e = CANDIDATE_END \<longrightarrow>
          silence_grace_chunks e + silence_chunks e \<le> int (trailing_silence env cs))"

text \<open>
  While the cue threshold lies below the comfort threshold, an engine that waits on an
  incomplete utterance has not yet counted the cue threshold.
\<close>

definition cue_first :: "TurnTakingEngine \<Rightarrow> bool" where
  "cue_first e \<longleftrightarrow>
     0 < incomplete_wait_chunks e \<and> incomplete_wait_chunks e < comfort_wait_chunks e
     \<and> (state e = WAITING_INCOMPLETE \<longrightarrow> silence_chunks e < incomplete_wait_chunks e)"

section \<open>Properties of the turn engine\<close>

subsection \<open>One call\<close>

lemma uncertain_prob_low:
  "has_voice_uncertain env pcm sr = None \<Longrightarrow> \<not> vad_probability env pcm sr \<ge> 0.1"
  by (simp add: has_voice_uncertain_def Let_def split: if_splits)

lemma process_chunk_classified:
  "classify env pcm = Some voice \<Longrightarrow>
   process_chunk env e pcm =
     (case state e of
        IDLE \<Rightarrow> chunk_idle e pcm voice
      | LISTENING \<Rightarrow> chunk_listening e pcm voice
      | CANDIDATE_END \<Rightarrow> chunk_candidate_end e pcm voice
      | WAITING_INCOMPLETE \<Rightarrow> chunk_waiting_incomplete e pcm voice)"
  by (simp add: classify_def process_chunk_def split: if_splits)

lemma process_chunk_unclassified:
  "classify env pcm = None \<Longrightarrow>
   process_chunk env e pcm =
     (if state e = LISTENING \<or> state e = CANDIDATE_END
      then (e\<lparr> buffer := buffer e @ pcm \<rparr>, None) else (e, None))"
  using uncertain_prob_low [of env pcm SAMPLE_RATE]
  by (auto simp add: classify_def process_chunk_def split: if_splits)

lemma calls_append: "calls env e (cs @ ds) = calls env (calls env e cs) ds"
  by (induction cs arbitrary: e) auto

lemmas chunk_defs = chunk_idle_def chunk_listening_def chunk_candidate_end_def
  chunk_waiting_incomplete_def start_listening_def reset_def

lemma turn_end_only_candidate:
  assumes "process_chunk env e pcm = (e', Some (TurnEvent TURN_END b))"
  shows "state e = CANDIDATE_END \<and> classify env pcm = Some False \<and> state e' = CANDIDATE_END
         \<and> e' = e\<lparr> buffer := buffer e @ pcm, silence_chunks := silence_chunks e + 1 \<rparr>
         \<and> confirmation_chunks e \<le> silence_chunks e + 1 \<and> b = Some (buffer e @ pcm)"
proof (cases "classify env pcm")
  case None
  with assms show ?thesis
    by (simp add: process_chunk_unclassified split: if_splits)
next
  case (Some voice)
  with assms show ?thesis
    by (cases "state e"; cases voice)
       (auto simp add: process_chunk_classified chunk_defs Let_def split: if_splits)
qed




subsection \<open>Invariants along a run\<close>

lemma trailing_silence_snoc:
  "trailing_silence env (cs @ [c]) =
     (if speech_call env c then 0
      else if silence_call env c then Suc (trailing_silence env cs)
      else trailing_silence env cs)"
  by (simp add: trailing_silence_def silent_tail_def)

lemma call_thresholds: "thresholds_eq (fst (call env e c)) e"
proof (cases c)
  case (ProcessChunk pcm)
  show ?thesis
  proof (cases "classify env pcm")
    case None
    then show ?thesis using ProcessChunk
      by (simp add: process_chunk_unclassified thresholds_eq_def)
  next
    case (Some voice)
    then show ?thesis using ProcessChunk
      by (cases "state e")
         (simp_all add: process_chunk_classified thresholds_eq_def chunk_defs Let_def)
  qed
qed (simp_all add: thresholds_eq_def turn_end_incomplete_def finalize_turn_def reset_def)

lemma calls_thresholds: "thresholds_eq (calls env e cs) e"
proof (induction cs arbitrary: e)
  case Nil
  show ?case by (simp add: thresholds_eq_def)
next
  case (Cons c cs)
  have "thresholds_eq (calls env (fst (call env e c)) cs) (fst (call env e c))"
    by (rule Cons.IH)
  with call_thresholds [of env e c] show ?case
    by (simp add: thresholds_eq_def)
qed

lemma call_speech_gate: "speech_gate e \<Longrightarrow> speech_gate (fst (call env e c))"
proof (cases c)
  case (ProcessChunk pcm)
  assume g: "speech_gate e"
  show ?thesis
  proof (cases "classify env pcm")
    case None
    then show ?thesis using ProcessChunk g
      by (simp add: process_chunk_unclassified speech_gate_def)
  next
    case (Some voice)
    then show ?thesis using ProcessChunk g
      by (cases "state e")
         (simp_all add: process_chunk_classified speech_gate_def chunk_defs Let_def)
  qed
qed (simp_all add: speech_gate_def turn_end_incomplete_def finalize_turn_def reset_def)

lemma calls_speech_gate: "speech_gate e \<Longrightarrow> speech_gate (calls env e cs)"
  by (induction cs arbitrary: e) (auto intro: call_speech_gate)

lemma call_silence_inv:
  assumes "silence_inv env cs e"
  shows "silence_inv env (cs @ [c]) (fst (call env e c))"
proof (cases c)
  case (ProcessChunk pcm)
  show ?thesis
  proof (cases "classify env pcm")
    case None
    then show ?thesis using ProcessChunk assms
      by (simp add: process_chunk_unclassified silence_inv_def trailing_silence_snoc)
  next
    case (Some voice)
    then show ?thesis using ProcessChunk assms
      by (cases "state e"; cases voice)
         (simp_all add: process_chunk_classified silence_inv_def trailing_silence_snoc
            chunk_defs Let_def)
  qed
qed (simp_all add: silence_inv_def turn_end_incomplete_def finalize_turn_def reset_def)

lemma calls_silence_inv:
  assumes "state e0 \<noteq> LISTENING" and "state e0 \<noteq> CANDIDATE_END"
  shows "silence_inv env cs (calls env e0 cs)"
proof (induction cs rule: rev_induct)
  case Nil
  from assms show ?case by (simp add: silence_inv_def)
next
  case (snoc c cs)
  from call_silence_inv [OF snoc.IH, of c] show ?case
    by (simp add: calls_append)
qed

lemma init_state:
  "TurnTakingEngine_init chunk config = Inr e0 \<Longrightarrow>
     state e0 = IDLE \<and> buffer e0 = [] \<and> speech_chunks e0 = 0 \<and> silence_chunks e0 = 0
     \<and> idle_silence_chunks e0 = 0"
  by (auto simp add: TurnTakingEngine_init_def split: if_splits)



subsection \<open>The concrete frames and the default engine\<close>

lemma energy_loop_const:
  assumes "\<forall>j < length pcm. pcm ! j = b" and "stop < length pcm"
  shows "energy_loop pcm i stop (t, c) =
           (t + int ((stop + 1 - i) div 2) * \<bar>unpack_h b b\<bar>, c + (stop + 1 - i) div 2)"
  using assms
proof (induction pcm i stop "(t, c)" arbitrary: t c rule: energy_loop.induct)
  case (1 pcm i stop t c)
  show ?case
  proof (cases "i < stop")
    case True
    with "1.prems" have len: "i + 2 \<le> length pcm" by simp
    have k: "(stop + 1 - i) div 2 = Suc ((stop + 1 - (i + 2)) div 2)"
      using True by (simp add: Suc_diff_le flip: div_add_self2)
    from True len "1.prems" have el: "pcm ! i = b" "pcm ! (i + 1) = b" by simp_all
    have "energy_loop pcm i stop (t, c) =
            energy_loop pcm (i + 2) stop (t + \<bar>unpack_h (pcm ! i) (pcm ! (i + 1))\<bar>, c + 1)"
      using True len by (subst energy_loop.simps) simp
    also have "\<dots> = (t + \<bar>unpack_h (pcm ! i) (pcm ! (i + 1))\<bar>
                        + int ((stop + 1 - (i + 2)) div 2) * \<bar>unpack_h b b\<bar>,
                      c + 1 + (stop + 1 - (i + 2)) div 2)"
      by (rule "1.hyps" [OF True len "1.prems"])
    also have "\<dots> = (t + int ((stop + 1 - i) div 2) * \<bar>unpack_h b b\<bar>, c + (stop + 1 - i) div 2)"
      by (simp only: k el) (simp add: algebra_simps)
    finally show ?thesis .
  next
    case False
    then show ?thesis by (subst energy_loop.simps) simp
  qed
qed

lemma FRAME_BYTES_640: "FRAME_BYTES = 640"
  by (simp add: FRAME_BYTES_def SAMPLE_RATE_def FRAME_MS_def)

lemma energy_probability_const:
  "energy_probability (replicate 640 b) 639 =
     (let avg = real_of_int \<bar>unpack_h b b\<bar> / 32768
      in if avg > 0.03 then 1 else if avg > 0.015 then 0.5 else if avg > 0.005 then 0.3 else 0)"
  by (simp add: energy_probability_def energy_loop_const [where b = b] Let_def)

lemma vad_probability_energy_const:
  "vad_probability env_energy (replicate 640 b) sr =
     (let avg = real_of_int \<bar>unpack_h b b\<bar> / 32768
      in if avg > 0.03 then 1 else if avg > 0.015 then 0.5 else if avg > 0.005 then 0.3 else 0)"
  by (simp add: vad_probability_def env_energy_def FRAME_BYTES_640 energy_probability_const)

lemma vad_silent_frame: "vad_probability env_energy silent_frame sr = 0"
  by (simp add: silent_frame_def vad_probability_energy_const unpack_h_def)

lemma vad_speech_frame: "vad_probability env_energy speech_frame sr = 1"
  by (simp add: speech_frame_def vad_probability_energy_const unpack_h_def)

lemma vad_weak_frame: "vad_probability env_energy weak_frame sr = 0.3"
  by (simp add: weak_frame_def vad_probability_energy_const unpack_h_def)

lemma classify_frames:
  "classify env_energy silent_frame = Some False"
  "classify env_energy speech_frame = Some True"
  by (simp_all add: classify_def has_voice_uncertain_def vad_silent_frame vad_speech_frame
        FRAME_BYTES_640)
     (simp_all add: silent_frame_def speech_frame_def)

lemma classify_weak_frame: "classify env_energy weak_frame = Some True"
  by (simp add: classify_def has_voice_uncertain_def vad_weak_frame FRAME_BYTES_640)
     (simp add: weak_frame_def)

lemma py_round_vals: "py_round (5) = 5" "py_round 2 = 2" "py_round (3/2) = 2" "py_round (15/2) = 8"
  by (simp_all add: py_round_def Let_def)

lemma init_default: "TurnTakingEngine_init CHUNK_MS Map.empty = Inr default_engine"
  by (simp add: TurnTakingEngine_init_def default_engine_def CHUNK_MS_def ms_to_chunks_def
        config_get_def SILENCE_GRACE_MS_def CONFIRMATION_WINDOW_MS_def MIN_SPEECH_MS_def
        LONG_SILENCE_NUDGE_MS_def INCOMPLETE_WAIT_MS_def COMFORT_WAIT_MS_def py_round_vals)

lemmas frame_steps =
  process_chunk_classified [OF classify_frames(1)]
  process_chunk_classified [OF classify_frames(2)]

lemma demo_run: "calls env_energy default_engine demo_calls = demo_engine"
  by (simp add: demo_calls_def demo_engine_def frame_steps chunk_defs default_engine_def Let_def)

lemma demo_emit:
  "process_chunk env_energy demo_engine silent_frame =
     (demo_engine\<lparr> buffer := buffer demo_engine @ silent_frame, silence_chunks := 2 \<rparr>,
      Some (TurnEvent TURN_END (Some (buffer demo_engine @ silent_frame))))"
  by (simp add: demo_engine_def frame_steps chunk_defs default_engine_def Let_def)

subsection \<open>The detector never answers uncertain\<close>

lemma prob_values:
  "vad_probability env pcm sr \<in> {0, 0.3, 0.5, 1}"
  by (auto simp add: vad_probability_def energy_probability_def Let_def split: option.splits prod.splits)

lemma never_uncertain: "has_voice_uncertain env pcm sr \<noteq> None"
  using prob_values [of env pcm sr]
  by (auto simp add: has_voice_uncertain_def Let_def)

text \<open>
  A chunk of at least one frame whose probability is 0.3 or 0.5 takes the speech branch
  of every state: in LISTENING it is appended and counted as speech, and the silence
  counter restarts; in CANDIDATE_END it does the same and returns to LISTENING.
\<close>

lemma low_probability_chunk_is_speech:
  assumes "FRAME_BYTES \<le> length pcm"
    and "vad_probability env pcm SAMPLE_RATE = 0.3 \<or> vad_probability env pcm SAMPLE_RATE = 0.5"
    and "state e = LISTENING \<or> state e = CANDIDATE_END"
  shows "process_chunk env e pcm =
           (e\<lparr> state := LISTENING, buffer := buffer e @ pcm,
                speech_chunks := speech_chunks e + 1, silence_chunks := 0 \<rparr>, None)"
proof -
  from assms(1) have "pcm \<noteq> []"
    by (auto simp add: FRAME_BYTES_640)
  with assms(1,2) have "classify env pcm = Some True"
    by (auto simp add: classify_def has_voice_uncertain_def Let_def)
  from process_chunk_classified [OF this, of e] assms(3) show ?thesis
    by (auto simp add: chunk_defs)
qed

subsection \<open>The comfort event\<close>

lemma call_cue_first:
  assumes "cue_first e"
  shows "cue_first (fst (call env e c)) \<and> snd (call env e c) \<noteq> Some (TurnEvent COMFORT b)"
proof (cases c)
  case (ProcessChunk pcm)
  show ?thesis
  proof (cases "classify env pcm")
    case None
    then show ?thesis using ProcessChunk assms
      by (simp add: process_chunk_unclassified cue_first_def)
  next
    case (Some voice)
    then show ?thesis using ProcessChunk assms
      by (cases "state e"; cases voice)
         (simp_all add: process_chunk_classified cue_first_def chunk_defs Let_def)
  qed
qed (use assms in \<open>simp_all add: cue_first_def turn_end_incomplete_def finalize_turn_def reset_def\<close>)

lemma calls_cue_first: "cue_first e \<Longrightarrow> cue_first (calls env e cs)"
  by (induction cs arbitrary: e) (auto dest: call_cue_first)

lemma comfort_unreachable:
  assumes "TurnTakingEngine_init chunk config = Inr e0"
    and "incomplete_wait_chunks e0 < comfort_wait_chunks e0"
  shows "snd (call env (calls env e0 cs) c) \<noteq> Some (TurnEvent COMFORT b)"
proof -
  from assms(1) have "0 < incomplete_wait_chunks e0" "state e0 = IDLE"
    by (auto simp add: TurnTakingEngine_init_def ms_to_chunks_def split: if_splits)
  with assms(2) have "cue_first e0"
    by (simp add: cue_first_def)
  then have "cue_first (calls env e0 cs)"
    by (rule calls_cue_first)
  then show ?thesis
    using call_cue_first by blast
qed

section \<open>Claims about the turn engine\<close>

subsection \<open>Silence before TURN\_END\<close>

text \<open>
  C1. Take an engine as the constructor builds it and any sequence of calls to
  \<open>process_chunk\<close>, \<open>turn_end_incomplete\<close> and \<open>finalize_turn\<close>. If the last call, a
  \<open>process_chunk\<close>, emits TURN_END, then the sequence, this last chunk included, ends in a
  stretch that holds no chunk classified as speech and at least
  \<open>silence_grace_chunks + confirmation_chunks\<close> chunks classified as silence.
\<close>

theorem turn_end_after_grace_and_confirmation:
  assumes init: "TurnTakingEngine_init chunk config = Inr e0"
    and emit: "process_chunk env (calls env e0 cs) pcm = (e', Some (TurnEvent TURN_END b))"
  shows "\<exists>pre suf. cs @ [ProcessChunk pcm] = pre @ suf
           \<and> filter (speech_call env) suf = []
           \<and> silence_grace_chunks e0 + confirmation_chunks e0
               \<le> int (length (filter (silence_call env) suf))"
proof -
  let ?e = "calls env e0 cs"
  let ?cs = "cs @ [ProcessChunk pcm]"
  from init have idle: "state e0 \<noteq> LISTENING" "state e0 \<noteq> CANDIDATE_END"
    using init_state by fastforce+
  from emit have st: "state ?e = CANDIDATE_END" and sil: "classify env pcm = Some False"
    and conf: "confirmation_chunks ?e \<le> silence_chunks ?e + 1"
    using turn_end_only_candidate by blast+
  from calls_silence_inv [OF idle, of env cs] st
  have "silence_grace_chunks ?e + silence_chunks ?e \<le> int (trailing_silence env cs)"
    by (simp add: silence_inv_def)
  moreover have "trailing_silence env ?cs = Suc (trailing_silence env cs)"
    using sil by (simp add: trailing_silence_snoc)
  moreover have "silence_grace_chunks ?e = silence_grace_chunks e0"
    "confirmation_chunks ?e = confirmation_chunks e0"
    using calls_thresholds [of env e0 cs] by (simp_all add: thresholds_eq_def)
  ultimately have bound: "silence_grace_chunks e0 + confirmation_chunks e0
      \<le> int (length (filter (silence_call env) (silent_tail env ?cs)))"
    using conf by (simp add: trailing_silence_def)
  have split: "?cs = rev (dropWhile (\<lambda>c. \<not> speech_call env c) (rev ?cs)) @ silent_tail env ?cs"
    unfolding silent_tail_def rev_append [symmetric] by (simp only: takeWhile_dropWhile_id rev_rev_ident)
  have nospeech: "filter (speech_call env) (silent_tail env ?cs) = []"
    by (auto simp add: silent_tail_def filter_empty_conv dest: set_takeWhileD)
  from split nospeech bound show ?thesis by blast
qed

theorem turn_end_after_grace_and_confirmation_witness:
  "TurnTakingEngine_init CHUNK_MS Map.empty = Inr default_engine
   \<and> process_chunk env_energy (calls env_energy default_engine demo_calls) silent_frame
       = (demo_engine\<lparr> buffer := buffer demo_engine @ silent_frame, silence_chunks := 2 \<rparr>,
          Some (TurnEvent TURN_END (Some (buffer demo_engine @ silent_frame))))
   \<and> silence_grace_chunks default_engine + confirmation_chunks default_engine = 7
   \<and> (\<exists>pre suf. demo_calls @ [ProcessChunk silent_frame] = pre @ suf
           \<and> filter (speech_call env_energy) suf = []
           \<and> silence_grace_chunks default_engine + confirmation_chunks default_engine
               \<le> int (length (filter (silence_call env_energy) suf)))"
proof -
  have h1: "TurnTakingEngine_init CHUNK_MS Map.empty = Inr default_engine"
    by (rule init_default)
  have h2: "process_chunk env_energy (calls env_energy default_engine demo_calls) silent_frame
       = (demo_engine\<lparr> buffer := buffer demo_engine @ silent_frame, silence_chunks := 2 \<rparr>,
          Some (TurnEvent TURN_END (Some (buffer demo_engine @ silent_frame))))"
    by (simp only: demo_run demo_emit)
  have h3: "silence_grace_chunks default_engine + confirmation_chunks default_engine = 7"
    by (simp add: default_engine_def)
  from h1 h2 h3 turn_end_after_grace_and_confirmation [OF h1 h2] show ?thesis
    by (intro conjI)
qed

subsection \<open>Minimum speech before TURN\_END\<close>

text \<open>
  C6. On an engine as the constructor builds it, after any sequence of calls, a
  \<open>process_chunk\<close> that returns TURN_END leaves \<open>speech_chunks\<close> at
  \<open>min_speech_chunks\<close> or more.
\<close>

theorem turn_end_requires_min_speech:
  assumes init: "TurnTakingEngine_init chunk config = Inr e0"
    and emit: "process_chunk env (calls env e0 cs) pcm = (e', Some (TurnEvent TURN_END b))"
  shows "min_speech_chunks e' \<le> speech_chunks e'"
proof -
  from init have "speech_gate e0"
    using init_state by (fastforce simp add: speech_gate_def)
  then have "speech_gate (calls env e0 cs)"
    by (rule calls_speech_gate)
  moreover from emit have "state (calls env e0 cs) = CANDIDATE_END"
    and "e' = (calls env e0 cs)\<lparr> buffer := buffer (calls env e0 cs) @ pcm,
              silence_chunks := silence_chunks (calls env e0 cs) + 1 \<rparr>"
    using turn_end_only_candidate by blast+
  ultimately show ?thesis
    by (simp add: speech_gate_def)
qed

theorem turn_end_requires_min_speech_witness:
  "TurnTakingEngine_init CHUNK_MS Map.empty = Inr default_engine
   \<and> process_chunk env_energy (calls env_energy default_engine demo_calls) silent_frame
       = (demo_engine\<lparr> buffer := buffer demo_engine @ silent_frame, silence_chunks := 2 \<rparr>,
          Some (TurnEvent TURN_END (Some (buffer demo_engine @ silent_frame))))
   \<and> min_speech_chunks (demo_engine\<lparr> buffer := buffer demo_engine @ silent_frame, silence_chunks := 2 \<rparr>)
       \<le> speech_chunks (demo_engine\<lparr> buffer := buffer demo_engine @ silent_frame, silence_chunks := 2 \<rparr>)"
proof -
  have h1: "TurnTakingEngine_init CHUNK_MS Map.empty = Inr default_engine"
    by (rule init_default)
  have h2: "process_chunk env_energy (calls env_energy default_engine demo_calls) silent_frame
       = (demo_engine\<lparr> buffer := buffer demo_engine @ silent_frame, silence_chunks := 2 \<rparr>,
          Some (TurnEvent TURN_END (Some (buffer demo_engine @ silent_frame))))"
    by (simp only: demo_run demo_emit)
  from h1 h2 turn_end_requires_min_speech [OF h1 h2] show ?thesis
    by (intro conjI)
qed

subsection \<open>TURN\_END again on every further silent chunk\<close>



subsection \<open>Idempotence of finalize\_turn\<close>

text \<open>
  C9. Calling \<open>finalize_turn\<close> twice gives the same engine as calling it once, whatever the
  engine was before, and that engine is in state IDLE with an empty buffer and the four
  counters of the class at zero.
\<close>

theorem finalize_turn_idempotent:
  "finalize_turn (finalize_turn e) = finalize_turn e
   \<and> state (finalize_turn e) = IDLE
   \<and> buffer (finalize_turn e) = []
   \<and> speech_chunks (finalize_turn e) = 0
   \<and> silence_chunks (finalize_turn e) = 0
   \<and> idle_silence_chunks (finalize_turn e) = 0
   \<and> consecutive_speech_frames (finalize_turn e) = 0"
  by (simp add: finalize_turn_def reset_def)

subsection \<open>Waiting on an incomplete utterance\<close>

text \<open>
  C8. The default engine, after the TURN_END of the run above, is told that the utterance
  is incomplete and is then fed eight silent frames. With the default thresholds
  (\<open>incomplete_wait_chunks = 2\<close>, \<open>comfort_wait_chunks = 8\<close>) the second silent chunk
  emits CONTINUATION_CUE and resets the engine to IDLE; none of the eight chunks emits
  COMFORT, although the silence lasts \<open>comfort_wait_chunks\<close> chunks. Lemma
  \<open>comfort_unreachable\<close> shows the same for every sequence of calls while the cue
  threshold lies below the comfort threshold.
\<close>

theorem comfort_not_emitted_in_long_silence:
  "process_chunk env_energy demo_engine silent_frame
     = (demo_engine\<lparr> buffer := buffer demo_engine @ silent_frame, silence_chunks := 2 \<rparr>,
        Some (TurnEvent TURN_END (Some (buffer demo_engine @ silent_frame))))
   \<and> state (turn_end_incomplete
        (demo_engine\<lparr> buffer := buffer demo_engine @ silent_frame, silence_chunks := 2 \<rparr>))
       = WAITING_INCOMPLETE
   \<and> incomplete_wait_chunks demo_engine = 2
   \<and> comfort_wait_chunks demo_engine = 8
   \<and> snd (run_chunks env_energy
        (turn_end_incomplete
           (demo_engine\<lparr> buffer := buffer demo_engine @ silent_frame, silence_chunks := 2 \<rparr>))
        [silent_frame, silent_frame, silent_frame, silent_frame,
         silent_frame, silent_frame, silent_frame, silent_frame])
       = [None, Some (TurnEvent CONTINUATION_CUE None), None, None, None, None, None, None]"
  by (simp add: demo_emit)
     (simp add: demo_engine_def frame_steps chunk_defs default_engine_def Let_def
        turn_end_incomplete_def)

subsection \<open>Chunks of probability 0.3\<close>

text \<open>
  C2. A 640-byte frame of probability 0.3, fed to the default engine in LISTENING with
  one speech chunk and one silent chunk counted, is appended to the buffer and counted as
  speech: \<open>speech_chunks\<close> goes from 1 to 2 and \<open>silence_chunks\<close> from 1 to 0. Lemma
  \<open>never_uncertain\<close> shows that \<open>has_voice_uncertain\<close> answers uncertain on no chunk
  at all.
\<close>

theorem weak_frame_counts_as_speech:
  "vad_probability env_energy weak_frame SAMPLE_RATE = 0.3
   \<and> calls env_energy default_engine [ProcessChunk speech_frame, ProcessChunk silent_frame]
       = default_engine\<lparr> state := LISTENING, buffer := speech_frame @ silent_frame,
            speech_chunks := 1, silence_chunks := 1 \<rparr>
   \<and> process_chunk env_energy
        (default_engine\<lparr> state := LISTENING, buffer := speech_frame @ silent_frame,
            speech_chunks := 1, silence_chunks := 1 \<rparr>) weak_frame
       = (default_engine\<lparr> state := LISTENING, buffer := speech_frame @ silent_frame @ weak_frame,
            speech_chunks := 2, silence_chunks := 0 \<rparr>, None)"
  by (simp add: vad_weak_frame frame_steps process_chunk_classified [OF classify_weak_frame]
        chunk_defs default_engine_def Let_def)

section \<open>Properties of the conversation engine\<close>

subsection \<open>Writing and reading a counter\<close>

lemma digit_cases: "d < 10 \<Longrightarrow> d \<in> {0, 1, 2, 3, 4, 5, 6, 7, 8, 9::nat}"
  by auto

lemma digit_char_props:
  assumes "d < 10"
  shows "digit_value (digit_char d) = Some d" and "\<not> is_int_space (digit_char d)"
    and "digit_char d \<noteq> CHR ''-''" and "digit_char d \<noteq> CHR ''+''"
    and "digit_char d \<noteq> CHR ''_''"
  using digit_cases [OF assms]
  by (auto simp add: digit_char_def digit_value_def is_int_space_def)

lemma dec_str_digits: "\<forall>c \<in> set (dec_str n). is_digit c"
proof (induction n rule: dec_str.induct)
  case (1 n)
  show ?case
  proof (cases "n < 10")
    case True
    then show ?thesis
      by (subst dec_str.simps) (auto simp add: is_digit_def)
  next
    case False
    have "is_digit (digit_char (n mod 10))"
      unfolding is_digit_def by (rule exI [of _ "n mod 10"]) simp
    with False "1.IH" show ?thesis
      by (subst dec_str.simps) simp
  qed
qed

lemma dec_str_nonempty: "dec_str n \<noteq> []"
  by (subst dec_str.simps) simp

lemma is_digit_props:
  assumes "is_digit c"
  shows "\<not> is_int_space c" and "c \<noteq> CHR ''-''" and "c \<noteq> CHR ''+''" and "c \<noteq> CHR ''_''"
    and "\<exists>d < 10. digit_value c = Some d"
  using assms digit_char_props by (auto simp add: is_digit_def)

text \<open>On digits alone, one more digit at the end is one more decimal place.\<close>

lemma dec_value_snoc:
  assumes "xs \<noteq> []" and "\<forall>c \<in> set xs. is_digit c" and "d < 10"
  shows "dec_value (xs @ [digit_char d]) acc = map_option (\<lambda>v. 10 * v + d) (dec_value xs acc)"
  using assms(1,2)
proof (induction xs arbitrary: acc)
  case Nil
  then show ?case by simp
next
  case (Cons c cs)
  from Cons.prems obtain dc where dc: "digit_value c = Some dc"
    using is_digit_props(5) by fastforce
  show ?case
  proof (cases cs)
    case Nil
    with dc assms(3) show ?thesis
      by (simp add: digit_char_props)
  next
    case (Cons c2 cs2)
    with Cons.prems have c2: "c2 \<noteq> CHR ''_''" and rest: "\<forall>c \<in> set cs. is_digit c"
      using is_digit_props(4) by auto
    from Cons have ne: "cs \<noteq> []" by simp
    have "dec_value ((c # cs) @ [digit_char d]) acc = dec_value (cs @ [digit_char d]) (10 * acc + dc)"
      using dc c2 Cons by simp
    also have "\<dots> = map_option (\<lambda>v. 10 * v + d) (dec_value cs (10 * acc + dc))"
      by (rule Cons.IH [OF ne rest])
    also have "dec_value cs (10 * acc + dc) = dec_value (c # cs) acc"
      using dc c2 Cons by simp
    finally show ?thesis .
  qed
qed

lemma dec_value_dec_str: "dec_value (dec_str n) 0 = Some n"
proof (induction n rule: dec_str.induct)
  case (1 n)
  show ?case
  proof (cases "n < 10")
    case True
    then show ?thesis
      by (subst dec_str.simps) (simp add: digit_char_props)
  next
    case False
    have d: "n mod 10 < 10" by simp
    from False "1.IH" have "dec_value (dec_str (n div 10)) 0 = Some (n div 10)" by simp
    with dec_value_snoc [OF dec_str_nonempty dec_str_digits d, of "n div 10" 0] False
    show ?thesis
      by (subst dec_str.simps) simp
  qed
qed

lemma int_strip_id:
  assumes "\<forall>c \<in> set s. \<not> is_int_space c"
  shows "int_strip s = s"
proof -
  have drop: "dropWhile is_int_space xs = xs" if "\<forall>c \<in> set xs. \<not> is_int_space c" for xs
    using that by (cases xs) auto
  from assms have "dropWhile is_int_space s = s" by (rule drop)
  moreover from assms have "dropWhile is_int_space (rev s) = rev s" by (intro drop) simp
  ultimately show ?thesis by (simp add: int_strip_def)
qed

lemma py_str_nonempty: "py_str n \<noteq> []"
  by (simp add: py_str_def dec_str_nonempty)

lemma py_int_py_str: "py_int (py_str n) = Inr n"
proof (cases "n < 0")
  case True
  let ?m = "nat (- n)"
  have nospace: "\<forall>c \<in> set (CHR ''-'' # dec_str ?m). \<not> is_int_space c"
    using dec_str_digits [of ?m] is_digit_props(1) by (auto simp add: is_int_space_def)
  have "int_strip (py_str n) = CHR ''-'' # dec_str ?m"
    using True int_strip_id [OF nospace] by (simp add: py_str_def)
  with True show ?thesis
    by (simp add: py_int_def dec_value_dec_str)
next
  case False
  let ?m = "nat n"
  have nospace: "\<forall>c \<in> set (dec_str ?m). \<not> is_int_space c"
    using dec_str_digits [of ?m] is_digit_props(1) by auto
  have strip: "int_strip (py_str n) = dec_str ?m"
    using False int_strip_id [OF nospace] by (simp add: py_str_def)
  obtain c cs where cs: "dec_str ?m = c # cs"
    using dec_str_nonempty [of ?m] by (cases "dec_str ?m") auto
  with dec_str_digits [of ?m] have "is_digit c" by simp
  then have "c \<noteq> CHR ''-''" "c \<noteq> CHR ''+''"
    using is_digit_props by blast+
  moreover have "dec_value (c # cs) 0 = Some ?m"
    using dec_value_dec_str [of ?m] cs by simp
  ultimately show ?thesis
    using False by (simp add: py_int_def strip cs del: dec_value.simps)
qed

text \<open>The readings of \<open>int\<close> that differ from a plain digit string.\<close>

lemma py_int_examples:
  "py_int ''1_0'' = Inr 10"
  "py_int '' 19 '' = Inr 19"
  "py_int ''-7'' = Inr (- 7)"
  "py_int ''1__0'' = Inl ValueError"
  "py_int [CHR 0x1C, CHR ''1''] = Inl ValueError"
  "py_int [] = Inl ValueError"
  by (simp_all add: py_int_def int_strip_def is_int_space_def digit_value_def)

subsection \<open>The session row\<close>

lemma state_value_roundtrip: "state_of_value (state_value s) = Some s" "state_value s \<noteq> []"
  by (cases s; simp add: state_of_value_def)+

lemma get_state_update_state [simp]: "get_state (update_state r now sid s) sid = Some s"
  by (simp add: get_state_def update_state_def hget_def hset_def state_value_roundtrip)

lemma get_state_hset_other [simp]:
  "f \<noteq> ''state'' \<Longrightarrow> get_state (hset r (conversation_key sid) f v) sid = get_state r sid"
  by (simp add: get_state_def hget_def hset_def)

lemma hget_int_hset_same [simp]: "hget_int (hset r k f (py_str m)) k f = Inr m"
  by (simp add: hget_int_def hget_def hset_def py_str_nonempty py_int_py_str)

lemma hget_int_hset_other [simp]:
  "f \<noteq> g \<Longrightarrow> hget_int (hset r k g v) k f = hget_int r k f"
  by (simp add: hget_int_def hget_def hset_def)

lemma hget_int_update_state [simp]:
  "f \<noteq> ''state'' \<Longrightarrow> f \<noteq> ''updated_at'' \<Longrightarrow>
     hget_int (update_state r now sid s) (conversation_key sid) f = hget_int r (conversation_key sid) f"
  by (simp add: update_state_def)

lemma responding_step:
  assumes "get_state r sid = Some RESPONDING"
    and "hget_int r (conversation_key sid) ''turn_count'' = Inr n"
  shows "process_state_transition self groq now r sid user_text =
     Inr (update_state (hset r (conversation_key sid) ''turn_count'' (py_str (n + 1))) now sid
            (if n + 1 \<ge> max_turns self then END else LISTENING_conv),
          (if n + 1 \<ge> max_turns self
           then (END, ''Thank you for the conversation. Have a great day!'', True)
           else (LISTENING_conv, [], False)))"
  using assms
  by (simp add: process_state_transition_def increment_turn_def increment_field_def
        bind_result_def)

lemma listening_silent_step:
  assumes "get_state r sid = Some LISTENING_conv"
    and "hget_int r (conversation_key sid) ''silence_prompts'' = Inr n"
    and "no_text user_text"
  shows "process_state_transition self groq now r sid user_text =
     (let r1 = hset r (conversation_key sid) ''silence_prompts'' (py_str (n + 1))
      in if n \<ge> max_silence_prompts self then
           Inr (update_state r1 now sid END, END, ''Thank you for calling. Have a great day!'', True)
         else
           Inr (r1, LISTENING_conv,
                (if n + 1 = 0 then ''I'm listening. Please go ahead and speak.''
                 else if n + 1 = 1 then ''I'm still here. Please tell me how I can help you.''
                 else ''I didn't hear anything. If you need assistance, please speak now or I'll end this call.''),
                False))"
  using assms
  by (simp add: process_state_transition_def increment_silence_prompt_def increment_field_def
        bind_result_def get_silence_prompt_def Let_def)

lemma responding_store_facts:
  "get_state responding_store ''s'' = Some RESPONDING"
  "hget_int responding_store (conversation_key ''s'') ''turn_count'' = Inr 19"
  by (simp_all add: responding_store_def get_state_def hget_int_def hget_def hset_def
        state_of_value_def py_int_def int_strip_def is_int_space_def digit_value_def)

lemma listening_store_facts:
  "get_state listening_store ''s'' = Some LISTENING_conv"
  "hget_int listening_store (conversation_key ''s'') ''silence_prompts'' = Inr 0"
  by (simp_all add: listening_store_def get_state_def hget_int_def hget_def hset_def
        state_of_value_def py_int_def int_strip_def is_int_space_def digit_value_def)

section \<open>Claims about routing and the conversation engine\<close>

subsection \<open>Routing by confidence\<close>

text \<open>
  C4. With the default thresholds, \<open>route\<close> answers ACCEPT exactly when the confidence
  is at least 0.8, CLARIFY exactly when it is at least 0.2 and below 0.8, and REJECT
  exactly when it is below 0.2. The confidence is \<open>asr_result.get("confidence", 0.0)\<close>.
\<close>

theorem route_default_thresholds:
  "(fst (route (ConfidenceRouter_init None None) r) = ACCEPT
      \<longleftrightarrow> (case asr_confidence r of None \<Rightarrow> 0 | Some c \<Rightarrow> c) \<ge> 0.8)
   \<and> (fst (route (ConfidenceRouter_init None None) r) = CLARIFY
      \<longleftrightarrow> 0.2 \<le> (case asr_confidence r of None \<Rightarrow> 0 | Some c \<Rightarrow> c)
          \<and> (case asr_confidence r of None \<Rightarrow> 0 | Some c \<Rightarrow> c) < 0.8)
   \<and> (fst (route (ConfidenceRouter_init None None) r) = REJECT
      \<longleftrightarrow> (case asr_confidence r of None \<Rightarrow> 0 | Some c \<Rightarrow> c) < 0.2)"
  by (auto simp add: route_def ConfidenceRouter_init_def Let_def split: option.splits)

subsection \<open>The RESPONDING step\<close>

text \<open>
  C3, as the claim states it, fails: at 19 turns the RESPONDING step goes to END with
  \<open>should_end\<close> true, and the line it returns is not the closing line of the claim.
\<close>

theorem responding_closing_line_counterexample:
  "map_sum id snd (process_state_transition ConversationEngine_init no_groq ''t'' responding_store ''s'' None)
     = Inr (END, ''Thank you for the conversation. Have a great day!'', True)
   \<and> map_sum id snd (process_state_transition ConversationEngine_init no_groq ''t'' responding_store ''s'' None)
     \<noteq> Inr (END, ''Thank you for calling. Have a great day!'', True)"
  using responding_step [OF responding_store_facts, of ConversationEngine_init no_groq "''t''" None]
  by (simp add: ConversationEngine_init_def)

text \<open>
  C3, amended. In state RESPONDING, with the stored \<open>turn_count\<close> reading as the integer
  \<open>n\<close>, \<open>process_state_transition\<close> stores \<open>n + 1\<close>; when \<open>n + 1\<close> has reached
  \<open>max_turns\<close> it moves to END with \<open>should_end\<close> true and the line "Thank you for the
  conversation. Have a great day!", otherwise it moves to LISTENING with an empty response
  and \<open>should_end\<close> false.
\<close>

theorem responding_transition:
  assumes "get_state r sid = Some RESPONDING"
    and "hget_int r (conversation_key sid) ''turn_count'' = Inr n"
  shows "process_state_transition self groq now r sid user_text =
     Inr (update_state (hset r (conversation_key sid) ''turn_count'' (py_str (n + 1))) now sid
            (if n + 1 \<ge> max_turns self then END else LISTENING_conv),
          (if n + 1 \<ge> max_turns self
           then (END, ''Thank you for the conversation. Have a great day!'', True)
           else (LISTENING_conv, [], False)))"
  using assms by (rule responding_step)

theorem responding_transition_witness:
  "get_state responding_store ''s'' = Some RESPONDING
   \<and> hget_int responding_store (conversation_key ''s'') ''turn_count'' = Inr 19
   \<and> max_turns ConversationEngine_init = 20
   \<and> process_state_transition ConversationEngine_init no_groq ''t'' responding_store ''s'' None =
       Inr (update_state (hset responding_store (conversation_key ''s'') ''turn_count'' (py_str 20))
              ''t'' ''s'' END,
            END, ''Thank you for the conversation. Have a great day!'', True)"
proof -
  have h1: "get_state responding_store ''s'' = Some RESPONDING"
    by (rule responding_store_facts)
  have h2: "hget_int responding_store (conversation_key ''s'') ''turn_count'' = Inr 19"
    by (rule responding_store_facts)
  have h3: "max_turns ConversationEngine_init = 20"
    by (simp add: ConversationEngine_init_def)
  from responding_transition [OF h1 h2, of ConversationEngine_init no_groq "''t''" None] h3
  have "process_state_transition ConversationEngine_init no_groq ''t'' responding_store ''s'' None =
       Inr (update_state (hset responding_store (conversation_key ''s'') ''turn_count'' (py_str 20))
              ''t'' ''s'' END,
            END, ''Thank you for the conversation. Have a great day!'', True)"
    by simp
  with h1 h2 h3 show ?thesis by (intro conjI)
qed

subsection \<open>Three empty inputs while listening\<close>

text \<open>
  C7. A session is in state LISTENING with \<open>silence_prompts\<close> reading 0, and the engine
  has the constructor's \<open>max_silence_prompts = 2\<close>. Three calls with no user text (absent,
  empty or only whitespace) answer: LISTENING with the second silence prompt, LISTENING
  with the third silence prompt, then END with the closing line and \<open>should_end\<close> true;
  the stored state is then END.
\<close>

theorem three_silent_transitions:
  assumes "get_state r sid = Some LISTENING_conv"
    and "hget_int r (conversation_key sid) ''silence_prompts'' = Inr 0"
    and "no_text t1" and "no_text t2" and "no_text t3"
  shows "\<exists>r3. transitions ConversationEngine_init groq r sid [(n1, t1), (n2, t2), (n3, t3)] =
           Inr (r3,
             [(LISTENING_conv, ''I'm still here. Please tell me how I can help you.'', False),
              (LISTENING_conv,
               ''I didn't hear anything. If you need assistance, please speak now or I'll end this call.'',
               False),
              (END, ''Thank you for calling. Have a great day!'', True)])
         \<and> get_state r3 sid = Some END"
proof -
  let ?k = "conversation_key sid"
  let ?r1 = "hset r ?k ''silence_prompts'' (py_str 1)"
  let ?r2 = "hset ?r1 ?k ''silence_prompts'' (py_str 2)"
  let ?r3 = "update_state (hset ?r2 ?k ''silence_prompts'' (py_str 3)) n3 sid END"
  have s1: "process_state_transition ConversationEngine_init groq n1 r sid t1 =
      Inr (?r1, LISTENING_conv, ''I'm still here. Please tell me how I can help you.'', False)"
    using listening_silent_step [OF assms(1,2,3), of ConversationEngine_init groq n1]
    by (simp add: ConversationEngine_init_def)
  have g1: "get_state ?r1 sid = Some LISTENING_conv" using assms(1) by simp
  have c1: "hget_int ?r1 ?k ''silence_prompts'' = Inr 1" by simp
  have s2: "process_state_transition ConversationEngine_init groq n2 ?r1 sid t2 =
      Inr (?r2, LISTENING_conv,
        ''I didn't hear anything. If you need assistance, please speak now or I'll end this call.'',
        False)"
    using listening_silent_step [OF g1 c1 assms(4), of ConversationEngine_init groq n2]
    by (simp add: ConversationEngine_init_def)
  have g2: "get_state ?r2 sid = Some LISTENING_conv" using g1 by simp
  have c2: "hget_int ?r2 ?k ''silence_prompts'' = Inr 2" by simp
  have s3: "process_state_transition ConversationEngine_init groq n3 ?r2 sid t3 =
      Inr (?r3, END, ''Thank you for calling. Have a great day!'', True)"
    using listening_silent_step [OF g2 c2 assms(5), of ConversationEngine_init groq n3]
    by (simp add: ConversationEngine_init_def)
  have "transitions ConversationEngine_init groq r sid [(n1, t1), (n2, t2), (n3, t3)] =
           Inr (?r3,
             [(LISTENING_conv, ''I'm still here. Please tell me how I can help you.'', False),
              (LISTENING_conv,
               ''I didn't hear anything. If you need assistance, please speak now or I'll end this call.'',
               False),
              (END, ''Thank you for calling. Have a great day!'', True)])"
    by (simp add: s1 s2 s3 bind_result_def)
  moreover have "get_state ?r3 sid = Some END" by simp
  ultimately show ?thesis by blast
qed

theorem three_silent_transitions_witness:
  "get_state listening_store ''s'' = Some LISTENING_conv
   \<and> hget_int listening_store (conversation_key ''s'') ''silence_prompts'' = Inr 0
   \<and> no_text None \<and> no_text (Some []) \<and> no_text (Some ''  '')
   \<and> (\<exists>r3. transitions ConversationEngine_init no_groq listening_store ''s''
              [(''t1'', None), (''t2'', Some []), (''t3'', Some ''  '')] =
           Inr (r3,
             [(LISTENING_conv, ''I'm still here. Please tell me how I can help you.'', False),
              (LISTENING_conv,
               ''I didn't hear anything. If you need assistance, please speak now or I'll end this call.'',
               False),
              (END, ''Thank you for calling. Have a great day!'', True)])
         \<and> get_state r3 ''s'' = Some END)"
proof -
  have h1: "get_state listening_store ''s'' = Some LISTENING_conv"
    by (rule listening_store_facts)
  have h2: "hget_int listening_store (conversation_key ''s'') ''silence_prompts'' = Inr 0"
    by (rule listening_store_facts)
  have h3: "no_text None" and h4: "no_text (Some [])" and h5: "no_text (Some ''  '')"
    by (simp_all add: no_text_def py_strip_def is_space_def)
  from h1 h2 h3 h4 h5
    three_silent_transitions [OF h1 h2 h3 h4 h5, of no_groq "''t1''" "''t2''" "''t3''"]
  show ?thesis by (intro conjI)
qed

section \<open>Barge-in\<close>

subsection \<open>One frame\<close>

lemma high_probability_no_event:
  assumes "vad_probability env pcm SAMPLE_RATE \<ge> 0.6"
  shows "snd (process_chunk env e pcm) = None"
proof (cases "classify env pcm")
  case None
  then show ?thesis by (simp add: process_chunk_unclassified)
next
  case (Some voice)
  with assms have "voice"
    by (auto simp add: classify_def has_voice_uncertain_def Let_def split: if_splits)
  with Some show ?thesis
    by (cases "state e") (simp_all add: process_chunk_classified chunk_defs)
qed

lemma process_chunk_barge_in_frames:
  "barge_in_frames (fst (process_chunk env e pcm)) = barge_in_frames e"
proof (cases "classify env pcm")
  case None
  then show ?thesis by (simp add: process_chunk_unclassified)
next
  case (Some voice)
  then show ?thesis
    by (cases "state e"; cases voice)
       (simp_all add: process_chunk_classified chunk_defs Let_def)
qed

lemma apply_effect_keeps:
  "barge_in_frames (turn_engine (apply_effect conn eff)) = barge_in_frames (turn_engine conn)"
  "barge_ins (apply_effect conn eff) = barge_ins conn"
  by (cases "eff_turn eff";
      simp add: apply_effect_def barge_ins_def finalize_turn_def reset_def turn_end_incomplete_def)+

lemma run_frames_snoc:
  "run_frames env conn (steps @ [(f, t, eff)]) = loop_body env (run_frames env conn steps) f t eff"
  by (induction steps arbitrary: conn) auto

text \<open>A high frame while the bot speaks.\<close>

lemma loop_body_high_first:
  assumes "bot_speaking conn"
    and "barge_in_frames (turn_engine conn) = None \<or> barge_in_frames (turn_engine conn) = Some 0"
    and "vad_probability env f SAMPLE_RATE \<ge> 0.6"
  shows "outbox (loop_body env conn f now eff) = outbox conn
    \<and> bot_speaking (loop_body env conn f now eff)
    \<and> barge_in_frames (turn_engine (loop_body env conn f now eff)) = Some 1"
proof -
  let ?te = "(turn_engine conn)\<lparr> barge_in_frames := Some 1 \<rparr>"
  have block: "barge_in_block conn (vad_probability env f SAMPLE_RATE) now
      = (conn\<lparr> turn_engine := ?te \<rparr>, False)"
    using assms by (auto simp add: barge_in_block_def Let_def)
  obtain te ev where pc: "process_chunk env ?te f = (te, ev)" by fastforce
  from high_probability_no_event [OF assms(3), of ?te] pc have ev: "ev = None" by simp
  from process_chunk_barge_in_frames [of env ?te f] pc have te: "barge_in_frames te = Some 1"
    by simp
  have "loop_body env conn f now eff = conn\<lparr> turn_engine := te \<rparr>"
    by (simp add: loop_body_def frame_step_def block pc ev)
  with assms(1) te show ?thesis by simp
qed

lemma loop_body_high_second:
  assumes "bot_speaking conn"
    and "barge_in_frames (turn_engine conn) = Some 1"
    and "vad_probability env f SAMPLE_RATE \<ge> 0.6"
  shows "outbox (loop_body env conn f now eff) = outbox conn @ [BargeInMessage]
    \<and> \<not> bot_speaking (loop_body env conn f now eff)
    \<and> barge_in_frames (turn_engine (loop_body env conn f now eff)) = Some 0"
proof -
  let ?te = "(turn_engine conn)\<lparr> barge_in_frames := Some 0 \<rparr>"
  have block: "barge_in_block conn (vad_probability env f SAMPLE_RATE) now
      = (conn\<lparr> bot_speaking := False, turn_engine := ?te,
               outbox := outbox conn @ [BargeInMessage] \<rparr>, False)"
    using assms by (simp add: barge_in_block_def Let_def)
  obtain te ev where pc: "process_chunk env ?te f = (te, ev)" by fastforce
  from high_probability_no_event [OF assms(3), of ?te] pc have ev: "ev = None" by simp
  from process_chunk_barge_in_frames [of env ?te f] pc have te: "barge_in_frames te = Some 0"
    by simp
  have "loop_body env conn f now eff
      = conn\<lparr> bot_speaking := False, turn_engine := te,
               outbox := outbox conn @ [BargeInMessage] \<rparr>"
    by (simp add: loop_body_def frame_step_def block pc ev)
  with te show ?thesis by simp
qed

text \<open>A low frame while the bot speaks: nothing is sent as a barge-in, and the counter is reset.\<close>

lemma loop_body_low:
  assumes "bot_speaking conn"
    and "vad_probability env f SAMPLE_RATE < 0.6"
  shows "barge_ins (loop_body env conn f now eff) = barge_ins conn
    \<and> (barge_in_frames (turn_engine (loop_body env conn f now eff)) = None
        \<or> barge_in_frames (turn_engine (loop_body env conn f now eff)) = Some 0)"
proof -
  let ?te1 = "case barge_in_frames (turn_engine conn) of None \<Rightarrow> turn_engine conn
              | Some n \<Rightarrow> (turn_engine conn)\<lparr> barge_in_frames := Some 0 \<rparr>"
  have te1: "barge_in_frames ?te1 = None \<or> barge_in_frames ?te1 = Some 0"
    by (cases "barge_in_frames (turn_engine conn)") simp_all
  show ?thesis
  proof (cases "now \<le> bot_speaking_until conn")
    case True
    with assms have "loop_body env conn f now eff = conn\<lparr> turn_engine := ?te1 \<rparr>"
      by (simp add: loop_body_def frame_step_def barge_in_block_def Let_def)
    with te1 show ?thesis by (simp add: barge_ins_def)
  next
    case False
    let ?c1 = "conn\<lparr> turn_engine := ?te1, bot_speaking := False \<rparr>"
    obtain te ev where pc: "process_chunk env ?te1 f = (te, ev)" by fastforce
    from process_chunk_barge_in_frames [of env ?te1 f] pc
    have te: "barge_in_frames te = barge_in_frames ?te1" by simp
    from False assms have fs: "frame_step env conn f now = (?c1\<lparr> turn_engine := te \<rparr>, ev)"
      by (simp add: frame_step_def barge_in_block_def Let_def pc)
    show ?thesis
    proof (cases ev)
      case None
      with fs have "loop_body env conn f now eff = ?c1\<lparr> turn_engine := te \<rparr>"
        by (simp add: loop_body_def)
      with te te1 show ?thesis by (simp add: barge_ins_def)
    next
      case (Some e)
      with fs have "loop_body env conn f now eff = apply_effect (?c1\<lparr> turn_engine := te \<rparr>) eff"
        by (simp add: loop_body_def)
      with te te1 show ?thesis by (simp add: apply_effect_keeps) (simp add: barge_ins_def)
    qed
  qed
qed

text \<open>Any frame while the bot does not speak: the barge-in block is skipped.\<close>

lemma loop_body_not_speaking:
  assumes "\<not> bot_speaking conn"
  shows "barge_ins (loop_body env conn f now eff) = barge_ins conn
    \<and> barge_in_frames (turn_engine (loop_body env conn f now eff))
        = barge_in_frames (turn_engine conn)
    \<and> (vad_probability env f SAMPLE_RATE \<ge> 0.6 \<longrightarrow>
          outbox (loop_body env conn f now eff) = outbox conn
          \<and> \<not> bot_speaking (loop_body env conn f now eff))"
proof -
  obtain te ev where pc: "process_chunk env (turn_engine conn) f = (te, ev)" by fastforce
  from process_chunk_barge_in_frames [of env "turn_engine conn" f] pc
  have te: "barge_in_frames te = barge_in_frames (turn_engine conn)" by simp
  from assms have fs: "frame_step env conn f now = (conn\<lparr> turn_engine := te \<rparr>, ev)"
    by (simp add: frame_step_def barge_in_block_def pc)
  have hi: "ev = None" if "vad_probability env f SAMPLE_RATE \<ge> 0.6"
    using high_probability_no_event [OF that, of "turn_engine conn"] pc by simp
  show ?thesis
  proof (cases ev)
    case None
    with fs have "loop_body env conn f now eff = conn\<lparr> turn_engine := te \<rparr>"
      by (simp add: loop_body_def)
    with te assms show ?thesis by (simp add: barge_ins_def)
  next
    case (Some e)
    with fs have "loop_body env conn f now eff = apply_effect (conn\<lparr> turn_engine := te \<rparr>) eff"
      by (simp add: loop_body_def)
    with te hi Some show ?thesis by (auto simp add: apply_effect_keeps) (simp add: barge_ins_def)
  qed
qed

subsection \<open>The counter along a run\<close>

lemma websocket_open_counter:
  assumes "TurnTakingEngine_init chunk config = Inr e0"
  shows "barge_in_frames (turn_engine (websocket_open e0 greeting)) = None"
  using assms
  by (auto simp add: websocket_open_def TurnTakingEngine_init_def split: if_splits option.splits)

lemma counter_inv_run:
  assumes "barge_in_frames (turn_engine conn0) = None"
  shows "counter_inv env conn0 steps"
proof (induction steps rule: rev_induct)
  case Nil
  from assms show ?case by (simp add: counter_inv_def)
next
  case (snoc step steps)
  obtain f t eff where step: "step = (f, t, eff)" by (cases step) auto
  let ?c = "run_frames env conn0 steps"
  let ?c' = "loop_body env ?c f t eff"
  have run: "run_frames env conn0 (steps @ [step]) = ?c'"
    by (simp add: step run_frames_snoc)
  show ?case
  proof (cases "bot_speaking ?c")
    case False
    from loop_body_not_speaking [OF False, of env f t eff] snoc.IH False
    show ?thesis by (auto simp add: counter_inv_def run)
  next
    case True
    show ?thesis
    proof (cases "vad_probability env f SAMPLE_RATE \<ge> 0.6")
      case False
      then have "vad_probability env f SAMPLE_RATE < 0.6" by simp
      from loop_body_low [OF True this, of t eff]
      show ?thesis by (auto simp add: counter_inv_def run)
    next
      case high: True
      from snoc.IH consider
        "barge_in_frames (turn_engine ?c) = None \<or> barge_in_frames (turn_engine ?c) = Some 0"
        | "barge_in_frames (turn_engine ?c) = Some 1"
        by (auto simp add: counter_inv_def)
      then show ?thesis
      proof cases
        case 1
        have "last_high env conn0 (steps @ [step])"
          unfolding last_high_def step using high True by blast
        with loop_body_high_first [OF True 1 high, of t eff]
        show ?thesis by (simp add: counter_inv_def run)
      next
        case 2
        from loop_body_high_second [OF True 2 high, of t eff]
        show ?thesis by (simp add: counter_inv_def run)
      qed
    qed
  qed
qed

text \<open>A barge-in is sent only on the second of two high frames processed while the bot speaks.\<close>

lemma barge_in_only_after_high:
  assumes "barge_in_frames (turn_engine conn0) = None"
    and "barge_ins (loop_body env (run_frames env conn0 steps) f t eff)
           \<noteq> barge_ins (run_frames env conn0 steps)"
  shows "vad_probability env f SAMPLE_RATE \<ge> 0.6 \<and> bot_speaking (run_frames env conn0 steps)
         \<and> last_high env conn0 steps"
proof -
  let ?c = "run_frames env conn0 steps"
  have sp: "bot_speaking ?c"
    using loop_body_not_speaking [of ?c env f t eff] assms(2) by blast
  have high: "vad_probability env f SAMPLE_RATE \<ge> 0.6"
    using loop_body_low [OF sp, of env f t eff] assms(2) by fastforce
  have "\<not> (barge_in_frames (turn_engine ?c) = None \<or> barge_in_frames (turn_engine ?c) = Some 0)"
  proof
    assume "barge_in_frames (turn_engine ?c) = None \<or> barge_in_frames (turn_engine ?c) = Some 0"
    from loop_body_high_first [OF sp this high, of t eff]
    have "barge_ins (loop_body env ?c f t eff) = barge_ins ?c"
      by (simp add: barge_ins_def)
    with assms(2) show False by simp
  qed
  with counter_inv_run [OF assms(1), of env steps] have "last_high env conn0 steps"
    by (auto simp add: counter_inv_def)
  with sp high show ?thesis by simp
qed

lemma two_high_frames:
  assumes "barge_in_frames (turn_engine conn0) = None"
    and "bot_speaking (run_frames env conn0 steps)"
    and "vad_probability env f1 SAMPLE_RATE \<ge> 0.6"
    and "vad_probability env f2 SAMPLE_RATE \<ge> 0.6"
  shows "outbox (loop_body env (loop_body env (run_frames env conn0 steps) f1 t1 eff1) f2 t2 eff2)
           = outbox (run_frames env conn0 steps) @ [BargeInMessage]
         \<and> \<not> bot_speaking
               (loop_body env (loop_body env (run_frames env conn0 steps) f1 t1 eff1) f2 t2 eff2)"
proof -
  let ?c = "run_frames env conn0 steps"
  let ?c1 = "loop_body env ?c f1 t1 eff1"
  from counter_inv_run [OF assms(1), of env steps] consider
    "barge_in_frames (turn_engine ?c) = None \<or> barge_in_frames (turn_engine ?c) = Some 0"
    | "barge_in_frames (turn_engine ?c) = Some 1"
    by (auto simp add: counter_inv_def)
  then show ?thesis
  proof cases
    case 1
    from loop_body_high_first [OF assms(2) 1 assms(3), of t1 eff1]
    have c1: "outbox ?c1 = outbox ?c" "bot_speaking ?c1"
      "barge_in_frames (turn_engine ?c1) = Some 1" by simp_all
    from loop_body_high_second [OF c1(2) c1(3) assms(4), of t2 eff2] c1(1)
    show ?thesis by simp
  next
    case 2
    from loop_body_high_second [OF assms(2) 2 assms(3), of t1 eff1]
    have c1: "outbox ?c1 = outbox ?c @ [BargeInMessage]" "\<not> bot_speaking ?c1" by simp_all
    from loop_body_not_speaking [OF c1(2), of env f2 t2 eff2] assms(4) c1(1)
    show ?thesis by simp
  qed
qed

subsection \<open>Two consecutive frames\<close>

text \<open>
  C5. Take the connection as the frame loop finds it at its start, with an engine as the
  constructor builds it, and any run of frames on it, whatever the handlers of the turn
  events do in between. First, a frame that adds a barge-in message has probability at
  least 0.6 and is processed while the bot speaks, and so was the frame just before it:
  a high frame on its own never produces a barge-in. Second, and as a case of the first:
  at the start or after a frame below 0.6, a frame of at least 0.6 followed by a frame
  below 0.6 adds no barge-in message. Third, while the bot speaks, two consecutive frames
  of at least 0.6 send exactly one message, the barge-in, and leave \<open>bot_speaking\<close>
  false.
\<close>

theorem barge_in_needs_two_frames:
  assumes init: "TurnTakingEngine_init chunk config = Inr e0"
    and conn: "conn = run_frames env (websocket_open e0 greeting) steps"
  shows "(barge_ins (loop_body env conn f t eff) \<noteq> barge_ins conn \<longrightarrow>
            vad_probability env f SAMPLE_RATE \<ge> 0.6 \<and> bot_speaking conn
            \<and> (\<exists>pre f' t' eff'. steps = pre @ [(f', t', eff')]
                  \<and> vad_probability env f' SAMPLE_RATE \<ge> 0.6
                  \<and> bot_speaking (run_frames env (websocket_open e0 greeting) pre)))
    \<and> ((steps = [] \<or> vad_probability env (fst (last steps)) SAMPLE_RATE < 0.6)
          \<and> vad_probability env f1 SAMPLE_RATE \<ge> 0.6
          \<and> vad_probability env f2 SAMPLE_RATE < 0.6 \<longrightarrow>
            barge_ins (loop_body env conn f1 t1 eff1) = barge_ins conn
            \<and> barge_ins (loop_body env (loop_body env conn f1 t1 eff1) f2 t2 eff2) = barge_ins conn)
    \<and> (bot_speaking conn
          \<and> vad_probability env f1 SAMPLE_RATE \<ge> 0.6
          \<and> vad_probability env f2 SAMPLE_RATE \<ge> 0.6 \<longrightarrow>
            outbox (loop_body env (loop_body env conn f1 t1 eff1) f2 t2 eff2)
              = outbox conn @ [BargeInMessage]
            \<and> \<not> bot_speaking (loop_body env (loop_body env conn f1 t1 eff1) f2 t2 eff2))"
proof -
  let ?c0 = "websocket_open e0 greeting"
  note fresh = websocket_open_counter [OF init, of greeting]
  have only: "vad_probability env g SAMPLE_RATE \<ge> 0.6 \<and> bot_speaking (run_frames env ?c0 ss)
      \<and> last_high env ?c0 ss"
    if "barge_ins (loop_body env (run_frames env ?c0 ss) g u e) \<noteq> barge_ins (run_frames env ?c0 ss)"
    for ss g u e
    using barge_in_only_after_high [OF fresh that] .
  have A: "vad_probability env f SAMPLE_RATE \<ge> 0.6 \<and> bot_speaking conn
            \<and> (\<exists>pre f' t' eff'. steps = pre @ [(f', t', eff')]
                  \<and> vad_probability env f' SAMPLE_RATE \<ge> 0.6
                  \<and> bot_speaking (run_frames env ?c0 pre))"
    if "barge_ins (loop_body env conn f t eff) \<noteq> barge_ins conn"
    using only [of steps f t eff] that unfolding conn last_high_def by simp
  have B: "barge_ins (loop_body env conn f1 t1 eff1) = barge_ins conn
            \<and> barge_ins (loop_body env (loop_body env conn f1 t1 eff1) f2 t2 eff2) = barge_ins conn"
    if isolated: "steps = [] \<or> vad_probability env (fst (last steps)) SAMPLE_RATE < 0.6"
      and low: "vad_probability env f2 SAMPLE_RATE < 0.6"
  proof -
    have not_last: "\<not> last_high env ?c0 steps"
      using isolated by (auto simp add: last_high_def)
    have first: "barge_ins (loop_body env conn f1 t1 eff1) = barge_ins conn"
      using only [of steps f1 t1 eff1] not_last unfolding conn by blast
    have "barge_ins (loop_body env (run_frames env ?c0 (steps @ [(f1, t1, eff1)])) f2 t2 eff2)
            = barge_ins (run_frames env ?c0 (steps @ [(f1, t1, eff1)]))"
      using only [of "steps @ [(f1, t1, eff1)]" f2 t2 eff2] low by fastforce
    then have "barge_ins (loop_body env (loop_body env conn f1 t1 eff1) f2 t2 eff2)
            = barge_ins (loop_body env conn f1 t1 eff1)"
      by (simp add: run_frames_snoc conn)
    with first show ?thesis by simp
  qed
  have C: "outbox (loop_body env (loop_body env conn f1 t1 eff1) f2 t2 eff2)
              = outbox conn @ [BargeInMessage]
            \<and> \<not> bot_speaking (loop_body env (loop_body env conn f1 t1 eff1) f2 t2 eff2)"
    if "bot_speaking conn" "vad_probability env f1 SAMPLE_RATE \<ge> 0.6"
      "vad_probability env f2 SAMPLE_RATE \<ge> 0.6"
    using two_high_frames [OF fresh, of env steps f1 f2 t1 eff1 t2 eff2] that unfolding conn by simp
  from A B C show ?thesis by blast
qed

theorem barge_in_needs_two_frames_witness:
  "TurnTakingEngine_init CHUNK_MS Map.empty = Inr default_engine
   \<and> bot_speaking (websocket_open default_engine (Some 5))
   \<and> vad_probability env_energy speech_frame SAMPLE_RATE \<ge> 0.6
   \<and> vad_probability env_energy silent_frame SAMPLE_RATE < 0.6
   \<and> outbox (run_frames env_energy (websocket_open default_engine (Some 5))
               [(speech_frame, 1, no_effect), (speech_frame, 2, no_effect)])
       = [OtherMessage, BargeInMessage]
   \<and> \<not> bot_speaking (run_frames env_energy (websocket_open default_engine (Some 5))
               [(speech_frame, 1, no_effect), (speech_frame, 2, no_effect)])
   \<and> barge_ins (run_frames env_energy (websocket_open default_engine (Some 5))
               [(speech_frame, 1, no_effect), (silent_frame, 2, no_effect)]) = 0
   \<and> barge_ins (run_frames env_energy (websocket_open default_engine (Some 5))
               [(speech_frame, 1, no_effect), (silent_frame, 2, no_effect),
                (speech_frame, 3, no_effect)]) = 0"
proof -
  let ?c0 = "websocket_open default_engine (Some 5)"
  let ?hl = "[(speech_frame, 1::real, no_effect), (silent_frame, 2, no_effect)]"
  have h0: "TurnTakingEngine_init CHUNK_MS Map.empty = Inr default_engine"
    by (rule init_default)
  have sp: "bot_speaking ?c0" and ob: "outbox ?c0 = [OtherMessage]" and b0: "barge_ins ?c0 = 0"
    by (simp_all add: websocket_open_def barge_ins_def)
  have hi: "vad_probability env_energy speech_frame SAMPLE_RATE \<ge> 0.6"
    by (simp add: vad_speech_frame)
  have lo: "vad_probability env_energy silent_frame SAMPLE_RATE < 0.6"
    by (simp add: vad_silent_frame)
  have start: "?c0 = run_frames env_energy ?c0 []" by simp
  note t0 = barge_in_needs_two_frames [OF h0 start, where ?f1.0 = speech_frame
      and ?t1.0 = 1 and ?eff1.0 = no_effect and ?t2.0 = 2 and ?eff2.0 = no_effect]
  from t0 [where ?f2.0 = speech_frame] sp hi
  have two: "outbox (loop_body env_energy (loop_body env_energy ?c0 speech_frame 1 no_effect)
                speech_frame 2 no_effect) = outbox ?c0 @ [BargeInMessage]"
    and quiet: "\<not> bot_speaking (loop_body env_energy
                (loop_body env_energy ?c0 speech_frame 1 no_effect) speech_frame 2 no_effect)"
    by blast+
  from t0 [where ?f2.0 = silent_frame] hi lo
  have one: "barge_ins (loop_body env_energy (loop_body env_energy ?c0 speech_frame 1 no_effect)
                silent_frame 2 no_effect) = barge_ins ?c0"
    by blast
  have "barge_ins (loop_body env_energy (run_frames env_energy ?c0 ?hl) speech_frame 3 no_effect)
          = barge_ins (run_frames env_energy ?c0 ?hl)"
  proof (rule ccontr)
    assume "barge_ins (loop_body env_energy (run_frames env_energy ?c0 ?hl) speech_frame 3 no_effect)
          \<noteq> barge_ins (run_frames env_energy ?c0 ?hl)"
    with barge_in_needs_two_frames [OF h0 refl, of env_energy "Some 5" ?hl speech_frame 3 no_effect]
    obtain pre f' t' eff' where "?hl = pre @ [(f', t', eff')]"
      and "vad_probability env_energy f' SAMPLE_RATE \<ge> 0.6"
      by blast
    then have "vad_probability env_energy silent_frame SAMPLE_RATE \<ge> 0.6"
      by (cases pre rule: rev_cases) (auto simp add: append_eq_Cons_conv Cons_eq_append_conv)
    with lo show False by simp
  qed
  with one b0 have three: "barge_ins (run_frames env_energy ?c0
        [(speech_frame, 1, no_effect), (silent_frame, 2, no_effect),
         (speech_frame, 3, no_effect)]) = 0"
    by simp
  from one b0 have twol: "barge_ins (run_frames env_energy ?c0 ?hl) = 0" by simp
  from two ob have twoh: "outbox (run_frames env_energy ?c0
        [(speech_frame, 1, no_effect), (speech_frame, 2, no_effect)])
       = [OtherMessage, BargeInMessage]" by simp
  from quiet have quiet': "\<not> bot_speaking (run_frames env_energy ?c0
        [(speech_frame, 1, no_effect), (speech_frame, 2, no_effect)])" by simp
  from h0 sp hi lo twoh quiet' twol three show ?thesis by (intro conjI)
qed

end
